theory Spec2Isabelle
  imports Main "HOL-Library.Word" "HOL-Library.Multiset"
begin

unbundle bit_operations_syntax

section \<open>The ICC mailbox transport\<close>

type_synonym u8 = "8 word"
type_synonym u16 = "16 word"
type_synonym u32 = "32 word"

subsection \<open>Checksum\<close>

text \<open>
  \<^verbatim>\<open>static u16 checksum(const void *p, int length)\<close>: the loop
  \<^verbatim>\<open>while (length--) sum += *pp++;\<close> over the \<^verbatim>\<open>length\<close> bytes at \<^verbatim>\<open>p\<close>,
  which are the list argument here; the running sum \<open>s\<close> is a \<^verbatim>\<open>u16\<close> and wraps.
\<close>

fun checksum_loop :: "u16 \<Rightarrow> u8 list \<Rightarrow> u16" where
  "checksum_loop s [] = s"
| "checksum_loop s (b # pp) = checksum_loop (s + ucast b) pp"

definition checksum :: "u8 list \<Rightarrow> u16" where
  "checksum p = checksum_loop 0 p"

subsection \<open>Message header\<close>

text \<open>
  Modelled from the spec: \<^verbatim>\<open>struct icc_message_hdr\<close> is declared in
  \<^verbatim>\<open>aeolia-baikal.h\<close>, which is not among the sources. The fields are those the
  data model names (magic, major of 8 bits, minor of 16 bits, cookie, length, 16-bit
  checksum) and the field \<^verbatim>\<open>unknown\<close> that \<^verbatim>\<open>dump_message\<close> prints between minor
  and cookie; the struct is taken as packed, little-endian, fields in that order, so that
  \<^verbatim>\<open>ICC_HDR_SIZE\<close> is 12.
\<close>

record icc_message_hdr =
  hdr_magic :: u8
  hdr_major :: u8
  hdr_minor :: u16
  hdr_unknown :: u16
  hdr_cookie :: u16
  hdr_length :: u16
  hdr_checksum :: u16

definition lo8 :: "u16 \<Rightarrow> u8" where
  "lo8 w = ucast w"

definition hi8 :: "u16 \<Rightarrow> u8" where
  "hi8 w = ucast (drop_bit 8 w)"

definition le16 :: "u8 \<Rightarrow> u8 \<Rightarrow> u16" where
  "le16 lo hi = ucast lo OR push_bit 8 (ucast hi)"

definition ICC_HDR_SIZE :: nat where
  "ICC_HDR_SIZE = 12"

text \<open>The bytes of a header in memory, as \<^verbatim>\<open>checksum(&hdr, ICC_HDR_SIZE)\<close> and
  \<^verbatim>\<open>memcpy_toio(REQUEST, &hdr, ICC_HDR_SIZE)\<close> read them.\<close>

definition hdr_bytes :: "icc_message_hdr \<Rightarrow> u8 list" where
  "hdr_bytes h =
     [hdr_magic h, hdr_major h,
      lo8 (hdr_minor h), hi8 (hdr_minor h),
      lo8 (hdr_unknown h), hi8 (hdr_unknown h),
      lo8 (hdr_cookie h), hi8 (hdr_cookie h),
      lo8 (hdr_length h), hi8 (hdr_length h),
      lo8 (hdr_checksum h), hi8 (hdr_checksum h)]"

text \<open>A header read from the byte window \<open>w\<close>, as
  \<^verbatim>\<open>memcpy_fromio(&msg, REPLY, ICC_HDR_SIZE)\<close> fills it.\<close>

definition hdr_of_window :: "(nat \<Rightarrow> u8) \<Rightarrow> icc_message_hdr" where
  "hdr_of_window w =
     \<lparr> hdr_magic = w 0, hdr_major = w 1,
       hdr_minor = le16 (w 2) (w 3),
       hdr_unknown = le16 (w 4) (w 5),
       hdr_cookie = le16 (w 6) (w 7),
       hdr_length = le16 (w 8) (w 9),
       hdr_checksum = le16 (w 10) (w 11) \<rparr>"

text \<open>
  The other constants of the missing header are parameters of the model: every
  function below takes them as a record, and the theorems hold for all values.
\<close>

record icc_consts =
  ICC_MAGIC :: u8
  ICC_EVENT_MAGIC :: u8
  ICC_REPLY :: u16
  ICC_EVENT :: u16
  ICC_MIN_SIZE :: nat
  ICC_MAX_SIZE :: nat
  ICC_MIN_PAYLOAD :: nat
  ICC_MAX_PAYLOAD :: nat

subsection \<open>Error numbers and register bits\<close>

definition EINTR :: int where "EINTR = 4"
definition EIO :: int where "EIO = 5"
definition E2BIG :: int where "E2BIG = 7"
definition EAGAIN :: int where "EAGAIN = 11"
definition ETIMEDOUT :: int where "ETIMEDOUT = 110"
definition ERESTARTSYS :: int where "ERESTARTSYS = 512"

definition APCIE_ICC_SEND :: u32 where "APCIE_ICC_SEND = 0x01"
definition APCIE_ICC_ACK :: u32 where "APCIE_ICC_ACK = 0x02"

subsection \<open>Mailbox state\<close>

text \<open>What the code does to the outside, in the order it does it: log lines (the text
  of the message), \<^verbatim>\<open>dump_message\<close>, the power button callback,
  \<^verbatim>\<open>wake_up\<close> of the wait queue, and writes to the status and doorbell registers.\<close>

datatype event =
    Log string
  | DumpMessage
  | PwrButtonTrigger int
  | WakeUp
  | StatusWrite u32
  | Doorbell u32

text \<open>
  \<^verbatim>\<open>sc->icc\<close> together with the memory it points to. The request and reply halves of
  the shared window are byte memories indexed from \<^verbatim>\<open>REQUEST\<close> and \<^verbatim>\<open>REPLY\<close>;
  their \<^verbatim>\<open>BUF_EMPTY\<close> and \<^verbatim>\<open>BUF_FULL\<close> words (offsets declared in the missing
  header) are fields of their own. \<open>reply_buffer\<close> is a pointer: \<open>None\<close> is
  \<^verbatim>\<open>NULL\<close>, \<open>Some a\<close> the buffer at address \<open>a\<close> of \<open>heap\<close>.
  \<open>reply_extra_checksum\<close> is only ever subtracted from a \<^verbatim>\<open>u16\<close>, so it is kept
  modulo \<open>2^16\<close>.
\<close>

record apcie_dev =
  request :: icc_message_hdr
  reply :: icc_message_hdr
  reply_pending :: bool
  reply_buffer :: "nat option"
  reply_length :: nat
  reply_extra_checksum :: u16
  req_empty :: u32
  req_full :: u32
  req_window :: "nat \<Rightarrow> u8"
  rep_empty :: u32
  rep_full :: u32
  rep_window :: "nat \<Rightarrow> u8"
  heap :: "nat \<Rightarrow> u8 list"
  trace :: "event list"

definition emit :: "event list \<Rightarrow> apcie_dev \<Rightarrow> apcie_dev" where
  "emit es sc = sc\<lparr>trace := trace sc @ es\<rparr>"

text \<open>\<^verbatim>\<open>memcpy_toio\<close>/\<^verbatim>\<open>memset_io\<close>: the bytes \<open>bs\<close> written at offset \<open>off\<close>.\<close>

definition write_window :: "(nat \<Rightarrow> u8) \<Rightarrow> nat \<Rightarrow> u8 list \<Rightarrow> (nat \<Rightarrow> u8)" where
  "write_window w off bs =
     (\<lambda>i. if off \<le> i \<and> i < off + length bs then bs ! (i - off) else w i)"

text \<open>\<^verbatim>\<open>memcpy_fromio\<close> source: \<open>n\<close> bytes of a window from offset \<open>off\<close>.\<close>

definition read_window :: "(nat \<Rightarrow> u8) \<Rightarrow> nat \<Rightarrow> nat \<Rightarrow> u8 list" where
  "read_window w off n = map w [off ..< off + n]"

text \<open>Writing \<open>bs\<close> to the start of the buffer a pointer names, and reading \<open>n\<close>
  bytes from it. The callers in the source pass \<^verbatim>\<open>NULL\<close> only with length 0
  (\<^verbatim>\<open>icc_shutdown\<close>, \<^verbatim>\<open>icc_reboot\<close>), where nothing is copied.\<close>

definition store_buf :: "(nat \<Rightarrow> u8 list) \<Rightarrow> nat option \<Rightarrow> u8 list \<Rightarrow> (nat \<Rightarrow> u8 list)" where
  "store_buf h ptr bs =
     (case ptr of None \<Rightarrow> h | Some a \<Rightarrow> h(a := bs @ drop (length bs) (h a)))"

definition load_buf :: "(nat \<Rightarrow> u8 list) \<Rightarrow> nat option \<Rightarrow> nat \<Rightarrow> u8 list" where
  "load_buf h ptr n = (case ptr of None \<Rightarrow> [] | Some a \<Rightarrow> take n (h a))"

subsection \<open>Interrupt side\<close>

definition handle_event :: "apcie_dev \<Rightarrow> icc_message_hdr \<Rightarrow> apcie_dev" where
  "handle_event sc msg =
     (let key = push_bit 16 (uint (hdr_major msg)) OR uint (hdr_minor msg) in
      if key = 0x088010 then emit [PwrButtonTrigger 1] sc
      else if key = 0x088011 then emit [PwrButtonTrigger 0] sc
      else emit [Log ''icc: event arrived, not yet supported.'', DumpMessage] sc)"

text \<open>The loop \<^verbatim>\<open>while (off < msg.length) extra += ioread8(REPLY + off++)\<close>.\<close>

function extra_checksum_loop :: "(nat \<Rightarrow> u8) \<Rightarrow> nat \<Rightarrow> nat \<Rightarrow> u16 \<Rightarrow> u16" where
  "extra_checksum_loop w off len acc =
     (if off < len then extra_checksum_loop w (Suc off) len (acc + ucast (w off)) else acc)"
  by pat_completeness auto
termination
  by (relation "measure (\<lambda>(w, off, len, acc). len - off)") auto

declare extra_checksum_loop.simps [simp del]

definition handle_message :: "icc_consts \<Rightarrow> apcie_dev \<Rightarrow> apcie_dev" where
  "handle_message k sc =
     (if rep_empty sc \<noteq> 0 \<or> rep_full sc \<noteq> 1 then
        emit [Log ''icc: reply buffer in bad state''] sc
      else
        let msg = hdr_of_window (rep_window sc) in
        if hdr_minor msg AND ICC_EVENT k \<noteq> 0 then
          (if hdr_magic msg \<noteq> ICC_EVENT_MAGIC k then
             emit [Log ''icc: event has bad magic'', DumpMessage] sc
           else handle_event sc msg)
        else if hdr_minor msg AND ICC_REPLY k \<noteq> 0 then
          (if hdr_magic msg \<noteq> ICC_MAGIC k then
             emit [Log ''icc: reply has bad magic'', DumpMessage] sc
           else if \<not> reply_pending sc then
             emit [Log ''icc: unexpected reply'', DumpMessage] sc
           else if hdr_cookie msg \<noteq> hdr_cookie (request sc) then
             emit [Log ''icc: reply has bad cookie'', DumpMessage] sc
           else if unat (hdr_length msg) < ICC_HDR_SIZE
                 \<or> unat (hdr_length msg) > ICC_MAX_SIZE k then
             emit [Log ''icc: reply has bad length'', DumpMessage] sc
           else
             let off = ICC_HDR_SIZE;
                 copy_size = min (reply_length sc) (unat (hdr_length msg) - off);
                 h = store_buf (heap sc) (reply_buffer sc)
                       (read_window (rep_window sc) off copy_size);
                 off' = off + copy_size;
                 extra = extra_checksum_loop (rep_window sc) off' (unat (hdr_length msg)) 0
             in emit [WakeUp]
                  (sc\<lparr>heap := h,
                      reply_extra_checksum := extra,
                      reply_pending := False,
                      reply_length := copy_size,
                      reply := msg\<rparr>))
        else emit [Log ''icc: unknown message arrived'', DumpMessage] sc)"

text \<open>
  \<^verbatim>\<open>icc_interrupt\<close>: the list is what successive reads of the status register
  return; the \<^verbatim>\<open>do ... while (status)\<close> loop ends at the first zero read (or when
  the list ends). The result is \<open>True\<close> for \<^verbatim>\<open>IRQ_HANDLED\<close>.
\<close>

fun icc_interrupt_loop :: "icc_consts \<Rightarrow> u32 list \<Rightarrow> bool \<Rightarrow> apcie_dev \<Rightarrow> bool \<times> apcie_dev" where
  "icc_interrupt_loop k [] ret sc = (ret, sc)"
| "icc_interrupt_loop k (status # rest) ret sc =
     (let (ret1, sc1) =
            (if status AND APCIE_ICC_ACK \<noteq> 0
             then (True, emit [StatusWrite APCIE_ICC_ACK] sc) else (ret, sc));
          (ret2, sc2) =
            (if status AND APCIE_ICC_SEND \<noteq> 0
             then (True,
                   emit [Doorbell APCIE_ICC_ACK]
                     ((handle_message k (emit [StatusWrite APCIE_ICC_SEND] sc1))
                        \<lparr>rep_full := 0, rep_empty := 1\<rparr>))
             else (ret1, sc1))
      in if status \<noteq> 0 then icc_interrupt_loop k rest ret2 sc2 else (ret2, sc2))"

definition icc_interrupt :: "icc_consts \<Rightarrow> u32 list \<Rightarrow> apcie_dev \<Rightarrow> bool \<times> apcie_dev" where
  "icc_interrupt k statuses sc = icc_interrupt_loop k statuses False sc"

subsection \<open>The co-processor and the wait\<close>

text \<open>
  The other side of the mailbox is not code of this repository. \<open>remote_send\<close> is the
  co-processor placing a frame in the reply slot and marking it full;
  \<open>remote_deliver\<close> places each frame of a list in turn and raises the interrupt
  for it (status reads: the send bit, then zero). \<open>wait_env\<close> says what happens
  while \<^verbatim>\<open>_apcie_icc_cmd\<close> sleeps: whether the co-processor drains the request
  slot, which frames it sends, and whether a signal is pending for the sleeper.
\<close>

definition remote_send :: "u8 list \<Rightarrow> apcie_dev \<Rightarrow> apcie_dev" where
  "remote_send frame sc =
     sc\<lparr>rep_window := write_window (rep_window sc) 0 frame, rep_empty := 0, rep_full := 1\<rparr>"

fun remote_deliver :: "icc_consts \<Rightarrow> u8 list list \<Rightarrow> apcie_dev \<Rightarrow> apcie_dev" where
  "remote_deliver k [] sc = sc"
| "remote_deliver k (f # fs) sc =
     remote_deliver k fs (snd (icc_interrupt k [APCIE_ICC_SEND, 0] (remote_send f sc)))"

record wait_env =
  remote_drains :: bool
  arrivals :: "u8 list list"
  signalled :: bool

text \<open>
  \<^verbatim>\<open>wait_event_timeout\<close> and \<^verbatim>\<open>wait_event_interruptible_timeout\<close> on the
  condition \<^verbatim>\<open>!sc->icc.reply_pending\<close>: a positive number (the jiffies left, 1
  here) when the condition holds, \<^verbatim>\<open>-ERESTARTSYS\<close> when the interruptible wait
  is cut by a signal, 0 when the time runs out.
\<close>

definition wait_event :: "icc_consts \<Rightarrow> wait_env \<Rightarrow> bool \<Rightarrow> apcie_dev \<Rightarrow> int \<times> apcie_dev" where
  "wait_event k env intr sc =
     (let sc1 = (if remote_drains env then sc\<lparr>req_empty := 1, req_full := 0\<rparr> else sc);
          sc2 = remote_deliver k (arrivals env) sc1
      in (if \<not> reply_pending sc2 then 1
          else if intr \<and> signalled env then - ERESTARTSYS
          else 0, sc2))"

subsection \<open>Sending a request\<close>

text \<open>
  \<^verbatim>\<open>_apcie_icc_cmd\<close> in three parts: up to ringing the doorbell, the wait, and from
  retaking the reply lock to the return. \<open>data\<close> is the memory at the
  \<^verbatim>\<open>data\<close> pointer, of which \<^verbatim>\<open>length\<close> bytes are read. The first part
  returns \<open>Inl\<close> where the function returns early.
\<close>

definition u_apcie_icc_cmd_send ::
  "icc_consts \<Rightarrow> apcie_dev \<Rightarrow> u8 \<Rightarrow> u16 \<Rightarrow> u8 list \<Rightarrow> u16 \<Rightarrow> nat option \<Rightarrow> u16
     \<Rightarrow> (int \<times> apcie_dev) + apcie_dev" where
  "u_apcie_icc_cmd_send k sc major minor data len rbuf rlen =
     (if unat len > ICC_MAX_PAYLOAD k then Inl (- E2BIG, sc)
      else
        let r0 = (request sc)\<lparr>hdr_magic := ICC_MAGIC k, hdr_major := major, hdr_minor := minor,
                    hdr_cookie := hdr_cookie (request sc) + 1,
                    hdr_length := of_nat ICC_HDR_SIZE + len,
                    hdr_checksum := 0\<rparr>;
            r1 = (if unat (hdr_length r0) < ICC_MIN_SIZE k
                  then r0\<lparr>hdr_length := of_nat (ICC_MIN_SIZE k)\<rparr> else r0);
            r2 = r1\<lparr>hdr_checksum := checksum (hdr_bytes r1)\<rparr>;
            r3 = r2\<lparr>hdr_checksum := hdr_checksum r2 + checksum (take (unat len) data)\<rparr>;
            sc1 = sc\<lparr>request := r3, reply_buffer := rbuf, reply_length := unat rlen\<rparr>
        in
        if req_empty sc1 \<noteq> 1 \<or> req_full sc1 \<noteq> 0 then
          Inl (- EIO, emit [Log ''icc: request buffer is busy''] sc1)
        else
          let w1 = write_window (req_window sc1) 0 (hdr_bytes r3);
              w2 = write_window w1 ICC_HDR_SIZE (take (unat len) data);
              w3 = (if unat len < ICC_MIN_PAYLOAD k
                    then write_window w2 (ICC_HDR_SIZE + unat len)
                           (replicate (ICC_MIN_PAYLOAD k - unat len) 0)
                    else w2)
          in Inr (emit [Doorbell APCIE_ICC_SEND]
                   (sc1\<lparr>req_empty := 0, req_window := w3, req_full := 1,
                        reply_pending := True\<rparr>)))"

definition u_apcie_icc_cmd_finish ::
  "icc_consts \<Rightarrow> apcie_dev \<Rightarrow> u8 \<Rightarrow> u16 \<Rightarrow> nat option \<Rightarrow> int \<Rightarrow> int \<times> apcie_dev" where
  "u_apcie_icc_cmd_finish k sc major minor rbuf ret =
     (let sc1 = sc\<lparr>reply_buffer := None\<rparr> in
      if ret < 0 \<or> reply_pending sc1 then
        (if ret < 0 then - EINTR else - ETIMEDOUT,
         emit [Log ''icc: interrupted or timeout''] (sc1\<lparr>reply_pending := False\<rparr>))
      else
        let c0 = hdr_checksum (reply sc1);
            sc2 = sc1\<lparr>reply := (reply sc1)\<lparr>hdr_checksum := 0\<rparr>\<rparr>;
            c1 = c0 - checksum (hdr_bytes (reply sc2));
            c2 = c1 - checksum (load_buf (heap sc2) rbuf (reply_length sc2));
            rep_checksum = c2 - reply_extra_checksum sc2
        in
        if rep_checksum \<noteq> 0 then (- EIO, emit [Log ''icc: checksum mismatch''] sc2)
        else if hdr_major (reply sc2) \<noteq> major then
          (- EIO, emit [Log ''icc: major mismatch''] sc2)
        else if hdr_minor (reply sc2) \<noteq> (minor OR ICC_REPLY k) then
          (- EIO, emit [Log ''icc: minor mismatch''] sc2)
        else (int (unat (hdr_length (reply sc2))) - int ICC_HDR_SIZE, sc2))"

definition u_apcie_icc_cmd ::
  "icc_consts \<Rightarrow> wait_env \<Rightarrow> apcie_dev \<Rightarrow> u8 \<Rightarrow> u16 \<Rightarrow> u8 list \<Rightarrow> u16 \<Rightarrow> nat option \<Rightarrow> u16
     \<Rightarrow> bool \<Rightarrow> int \<times> apcie_dev" where
  "u_apcie_icc_cmd k env sc major minor data len rbuf rlen intr =
     (case u_apcie_icc_cmd_send k sc major minor data len rbuf rlen of
        Inl r \<Rightarrow> r
      | Inr sc1 \<Rightarrow>
          (let (ret, sc2) = wait_event k env intr sc1
           in u_apcie_icc_cmd_finish k sc2 major minor rbuf ret))"

text \<open>
  The globals of the file and \<^verbatim>\<open>apcie_icc_cmd\<close>. \<open>icc_mutex\<close> is \<open>True\<close> while
  the mutex is held. \<^verbatim>\<open>mutex_lock\<close> on a held mutex sleeps until the holder
  releases it; within one call nobody does, so the call does not return: \<open>None\<close>.
  \<^verbatim>\<open>bpcie_icc_cmd\<close> belongs to another file and is a parameter.
\<close>

record icc_globals =
  bpcie_initialized :: bool
  icc_mutex :: bool
  icc_sc :: "apcie_dev option"
  icc_log :: "event list"

definition apcie_icc_cmd ::
  "icc_consts \<Rightarrow> wait_env
     \<Rightarrow> (icc_globals \<Rightarrow> u8 \<Rightarrow> u16 \<Rightarrow> u8 list \<Rightarrow> u16 \<Rightarrow> nat option \<Rightarrow> u16 \<Rightarrow> int \<times> icc_globals)
     \<Rightarrow> icc_globals \<Rightarrow> u8 \<Rightarrow> u16 \<Rightarrow> u8 list \<Rightarrow> u16 \<Rightarrow> nat option \<Rightarrow> u16
     \<Rightarrow> (int \<times> icc_globals) option" where
  "apcie_icc_cmd k env bpcie_icc_cmd g major minor data len rbuf rlen =
     (if bpcie_initialized g then Some (bpcie_icc_cmd g major minor data len rbuf rlen)
      else if icc_mutex g then None
      else
        let g1 = g\<lparr>icc_mutex := True\<rparr> in
        case icc_sc g1 of
          None \<Rightarrow> Some (- EAGAIN, g1\<lparr>icc_log := icc_log g1 @ [Log ''icc: not ready'']\<rparr>)
        | Some sc \<Rightarrow>
            (let (ret, sc') = u_apcie_icc_cmd k env sc major minor data len rbuf rlen False
             in Some (ret, g1\<lparr>icc_sc := Some sc', icc_mutex := False\<rparr>)))"

text \<open>A reply frame that \<^verbatim>\<open>handle_message\<close> takes as a reply: the reply flag and not
  the event flag in minor, the reply magic, a length field that is the header plus the
  payload and within the maximum frame size.\<close>

definition reply_frame_ok :: "icc_consts \<Rightarrow> icc_message_hdr \<Rightarrow> u8 list \<Rightarrow> bool" where
  "reply_frame_ok k h payload \<longleftrightarrow>
     hdr_minor h AND ICC_EVENT k = 0 \<and> hdr_minor h AND ICC_REPLY k \<noteq> 0 \<and>
     hdr_magic h = ICC_MAGIC k \<and>
     unat (hdr_length h) = ICC_HDR_SIZE + length payload \<and>
     unat (hdr_length h) \<le> ICC_MAX_SIZE k"

text \<open>The checksum field of a frame is the checksum of the whole frame with that field
  zeroed.\<close>

definition frame_checksum_ok :: "icc_message_hdr \<Rightarrow> u8 list \<Rightarrow> bool" where
  "frame_checksum_ok h payload \<longleftrightarrow>
     hdr_checksum h = checksum (hdr_bytes (h\<lparr>hdr_checksum := 0\<rparr>) @ payload)"

text \<open>What one accepted reply leaves behind, relative to the state \<open>sc\<close> before it.\<close>

definition accepted :: "apcie_dev \<Rightarrow> icc_message_hdr \<Rightarrow> u8 list \<Rightarrow> apcie_dev \<Rightarrow> bool" where
  "accepted sc h payload sc' \<longleftrightarrow>
     (let n = min (reply_length sc) (length payload) in
      \<not> reply_pending sc' \<and> reply sc' = h \<and> reply_length sc' = n \<and>
      reply_extra_checksum sc' = checksum (drop n payload) \<and>
      heap sc' = store_buf (heap sc) (reply_buffer sc) (take n payload) \<and>
      reply_buffer sc' = reply_buffer sc \<and> request sc' = request sc \<and>
      req_empty sc' = req_empty sc \<and> req_full sc' = req_full sc \<and>
      trace sc' = trace sc @ [StatusWrite APCIE_ICC_SEND, WakeUp, Doorbell APCIE_ICC_ACK])"

section \<open>The control-operation entry point\<close>












text \<open>The scratch cell keeps its size, and a pending reply is limited to it.\<close>

definition scratch_ok :: "nat \<Rightarrow> nat \<Rightarrow> apcie_dev \<Rightarrow> bool" where
  "scratch_ok N tmp sc \<longleftrightarrow>
     length (heap sc tmp) = N \<and> (reply_pending sc \<longrightarrow> reply_length sc \<le> N)"

section \<open>The bridge command queue\<close>

text \<open>
  \<^verbatim>\<open>struct i2c_cmdqueue\<close>. \<open>cmdbuf\<close> is the byte array \<^verbatim>\<open>req.cmdbuf\<close> of
  \<^verbatim>\<open>0x7ec\<close> bytes, as a memory indexed from its start; the code never compares
  the cursor with the size, and a write at an index from \<^verbatim>\<open>0x7ec\<close> on is outside
  the array. \<open>q_p\<close> is the offset of \<^verbatim>\<open>q->p\<close> in \<open>cmdbuf\<close>, \<open>q_cmd\<close>
  the offset of the header \<^verbatim>\<open>q->cmd\<close> points to (\<open>None\<close> for \<^verbatim>\<open>NULL\<close>).
  A header \<^verbatim>\<open>struct i2c_cmd_hdr\<close> is the four bytes major, length, minor, count.
  \<open>q_reply\<close> is \<^verbatim>\<open>q->reply\<close> as bytes: res1, res2, unk1, unk2, count, databuf.
\<close>

record i2c_cmdqueue =
  req_code :: u8
  req_length :: u16
  req_count :: u8
  cmdbuf :: "nat \<Rightarrow> u8"
  q_reply :: "nat \<Rightarrow> u8"
  q_p :: nat
  q_cmd :: "nat option"

definition CMDBUF_SIZE :: nat where
  "CMDBUF_SIZE = 0x7ec"

definition REPLY_SIZE :: nat where
  "REPLY_SIZE = 5 + 0x7eb"

definition cq_init :: "i2c_cmdqueue \<Rightarrow> u8 \<Rightarrow> i2c_cmdqueue" where
  "cq_init q code = q\<lparr>req_code := code, req_count := 0, q_p := 0, q_cmd := None\<rparr>"

text \<open>The first branch of \<^verbatim>\<open>cq_cmd\<close> after the optional back-patch: a new header at
  the cursor.\<close>

definition cq_new_cmd :: "i2c_cmdqueue \<Rightarrow> u8 \<Rightarrow> u8 \<Rightarrow> i2c_cmdqueue" where
  "cq_new_cmd q major minor =
     (let c = q_p q;
          b1 = (cmdbuf q)(c := major);
          b2 = b1(c + 2 := minor);
          b3 = b2(c + 1 := 0);
          b4 = b3(c + 3 := 1)
      in q\<lparr>q_cmd := Some c, cmdbuf := b4, req_count := req_count q + 1, q_p := q_p q + 4\<rparr>)"

definition cq_cmd :: "i2c_cmdqueue \<Rightarrow> u8 \<Rightarrow> u8 \<Rightarrow> i2c_cmdqueue" where
  "cq_cmd q major minor =
     (case q_cmd q of
        None \<Rightarrow> cq_new_cmd q major minor
      | Some c \<Rightarrow>
          if cmdbuf q c \<noteq> major \<or> cmdbuf q (c + 2) \<noteq> minor then
            cq_new_cmd (q\<lparr>cmdbuf := (cmdbuf q)(c + 1 := of_nat (q_p q - c))\<rparr>) major minor
          else q\<lparr>cmdbuf := (cmdbuf q)(c + 3 := cmdbuf q (c + 3) + 1)\<rparr>)"

text \<open>\<^verbatim>\<open>*q->p++ = b\<close>, for each byte of a list in turn.\<close>

fun cq_put :: "i2c_cmdqueue \<Rightarrow> u8 list \<Rightarrow> i2c_cmdqueue" where
  "cq_put q [] = q"
| "cq_put q (b # bs) = cq_put (q\<lparr>cmdbuf := (cmdbuf q)(q_p q := b), q_p := q_p q + 1\<rparr>) bs"

definition cq_read :: "i2c_cmdqueue \<Rightarrow> u16 \<Rightarrow> u8 \<Rightarrow> i2c_cmdqueue" where
  "cq_read q addr cnt = cq_put (cq_cmd q 1 1) [cnt, hi8 addr, lo8 addr, 0]"

definition cq_writereg :: "i2c_cmdqueue \<Rightarrow> u16 \<Rightarrow> u8 \<Rightarrow> i2c_cmdqueue" where
  "cq_writereg q addr data = cq_put (cq_cmd q 2 2) [1, hi8 addr, lo8 addr, data]"

definition cq_mask :: "i2c_cmdqueue \<Rightarrow> u16 \<Rightarrow> u8 \<Rightarrow> u8 \<Rightarrow> i2c_cmdqueue" where
  "cq_mask q addr v msk = cq_put (cq_cmd q 2 3) [1, hi8 addr, lo8 addr, v, msk]"

definition cq_delay :: "i2c_cmdqueue \<Rightarrow> u16 \<Rightarrow> i2c_cmdqueue" where
  "cq_delay q time = cq_put (cq_cmd q 3 1) [0, lo8 time, hi8 time, 0]"

definition cq_wait_set :: "i2c_cmdqueue \<Rightarrow> u16 \<Rightarrow> u8 \<Rightarrow> i2c_cmdqueue" where
  "cq_wait_set q addr msk = cq_put (cq_cmd q 3 2) [0, hi8 addr, lo8 addr, msk]"

definition cq_wait_clear :: "i2c_cmdqueue \<Rightarrow> u16 \<Rightarrow> u8 \<Rightarrow> i2c_cmdqueue" where
  "cq_wait_clear q addr msk = cq_put (cq_cmd q 3 3) [0, hi8 addr, lo8 addr, msk]"

text \<open>The memory at \<^verbatim>\<open>&q->req\<close>: code, length (little-endian), count, then
  \<open>cmdbuf\<close> up to the cursor, which is as far as \<^verbatim>\<open>req.length\<close> reaches.\<close>

definition req_bytes :: "i2c_cmdqueue \<Rightarrow> u8 list" where
  "req_bytes q =
     [req_code q, lo8 (req_length q), hi8 (req_length q), req_count q]
     @ map (cmdbuf q) [0 ..< q_p q]"

text \<open>The two assignments of \<^verbatim>\<open>cq_exec\<close> before the transport call: the length of
  the open group is back-patched and \<^verbatim>\<open>req.length\<close> is set (\<open>cmdbuf\<close> starts
  4 bytes into \<^verbatim>\<open>req\<close>).\<close>

definition cq_close :: "i2c_cmdqueue \<Rightarrow> i2c_cmdqueue" where
  "cq_close q =
     (case q_cmd q of
        None \<Rightarrow> q
      | Some c \<Rightarrow>
          let q1 = q\<lparr>cmdbuf := (cmdbuf q)(c + 1 := of_nat (q_p q - c))\<rparr>
          in q1\<lparr>req_length := of_nat (q_p q1 + 4)\<rparr>)"

text \<open>
  \<^verbatim>\<open>cq_exec\<close>. The transport is a parameter: from a world \<open>w\<close>, the major and
  minor, the request bytes and length, the reply memory before the call and its capacity
  it gives the return value, the reply memory after the call and the next world. The
  second component of the result is what \<^verbatim>\<open>DRM_ERROR\<close> printed.
\<close>

type_synonym 'w transport =
  "'w \<Rightarrow> u8 \<Rightarrow> u16 \<Rightarrow> u8 list \<Rightarrow> u16 \<Rightarrow> (nat \<Rightarrow> u8) \<Rightarrow> nat \<Rightarrow> int \<times> (nat \<Rightarrow> u8) \<times> 'w"

definition cq_exec ::
  "'w transport \<Rightarrow> i2c_cmdqueue \<Rightarrow> 'w \<Rightarrow> int \<times> event list \<times> i2c_cmdqueue \<times> 'w" where
  "cq_exec icc q w =
     (case q_cmd q of
        None \<Rightarrow> (0, [], q, w)
      | Some c \<Rightarrow>
          let q2 = cq_close q;
              (res, rep, w') = icc w 0x10 0 (req_bytes q2) (req_length q2) (q_reply q2) REPLY_SIZE;
              q3 = q2\<lparr>q_reply := rep\<rparr>
          in if res < 5 then
               (- EIO, [Log ''icc i2c commandqueue failed: %d''], q3, w')
             else if q_reply q3 0 \<noteq> 0 \<or> q_reply q3 1 \<noteq> 0 then
               (- EIO, [Log ''icc i2c commandqueue failed: %d, %d''], q3, w')
             else (res, [], q3, w'))"

subsection \<open>A batch as a list of operations\<close>

datatype cq_op =
    Read u16 u8
  | WriteReg u16 u8
  | Mask u16 u8 u8
  | Delay u16
  | WaitSet u16 u8
  | WaitClear u16 u8

fun cq_emit :: "i2c_cmdqueue \<Rightarrow> cq_op \<Rightarrow> i2c_cmdqueue" where
  "cq_emit q (Read addr cnt) = cq_read q addr cnt"
| "cq_emit q (WriteReg addr data) = cq_writereg q addr data"
| "cq_emit q (Mask addr v msk) = cq_mask q addr v msk"
| "cq_emit q (Delay time) = cq_delay q time"
| "cq_emit q (WaitSet addr msk) = cq_wait_set q addr msk"
| "cq_emit q (WaitClear addr msk) = cq_wait_clear q addr msk"

definition cq_batch :: "i2c_cmdqueue \<Rightarrow> u8 \<Rightarrow> cq_op list \<Rightarrow> i2c_cmdqueue" where
  "cq_batch q code ops = foldl cq_emit (cq_init q code) ops"

text \<open>
  The encoding as the specification words it: the operations are cut into maximal runs
  of one (major, minor) pair; each run is one group, a header with the group's byte
  length and the number of operations in it, then the operand bytes of each operation.
\<close>

fun opcode :: "cq_op \<Rightarrow> u8 \<times> u8" where
  "opcode (Read addr cnt) = (1, 1)"
| "opcode (WriteReg addr data) = (2, 2)"
| "opcode (Mask addr v msk) = (2, 3)"
| "opcode (Delay time) = (3, 1)"
| "opcode (WaitSet addr msk) = (3, 2)"
| "opcode (WaitClear addr msk) = (3, 3)"

fun operands :: "cq_op \<Rightarrow> u8 list" where
  "operands (Read addr cnt) = [cnt, hi8 addr, lo8 addr, 0]"
| "operands (WriteReg addr data) = [1, hi8 addr, lo8 addr, data]"
| "operands (Mask addr v msk) = [1, hi8 addr, lo8 addr, v, msk]"
| "operands (Delay time) = [0, lo8 time, hi8 time, 0]"
| "operands (WaitSet addr msk) = [0, hi8 addr, lo8 addr, msk]"
| "operands (WaitClear addr msk) = [0, hi8 addr, lo8 addr, msk]"

fun runs :: "cq_op list \<Rightarrow> cq_op list list" where
  "runs [] = []"
| "runs (x # xs) =
     (case runs xs of
        [] \<Rightarrow> [[x]]
      | g # gs \<Rightarrow> if opcode x = opcode (hd g) then (x # g) # gs else [x] # g # gs)"

definition group_size :: "cq_op list \<Rightarrow> nat" where
  "group_size g = 4 + length (concat (map operands g))"

definition encode_group :: "cq_op list \<Rightarrow> u8 list" where
  "encode_group g =
     [fst (opcode (hd g)), of_nat (group_size g), snd (opcode (hd g)), of_nat (length g)]
     @ concat (map operands g)"

definition encode_batch :: "cq_op list \<Rightarrow> u8 list" where
  "encode_batch ops = concat (map encode_group (runs ops))"

text \<open>The bytes of \<open>cmdbuf\<close> written so far; a group whose length byte is still
  the 0 written when it was opened; and what holds of a queue after the operations
  \<open>ops\<close> (not empty): the groups before the last are complete, the last is open.\<close>

definition buf_prefix :: "i2c_cmdqueue \<Rightarrow> u8 list" where
  "buf_prefix q = map (cmdbuf q) [0 ..< q_p q]"

definition open_group :: "cq_op list \<Rightarrow> u8 list" where
  "open_group g = (encode_group g)[1 := 0]"

definition cq_inv :: "cq_op list \<Rightarrow> i2c_cmdqueue \<Rightarrow> bool" where
  "cq_inv ops q \<longleftrightarrow>
     q_cmd q = Some (length (concat (map encode_group (butlast (runs ops)))))
     \<and> buf_prefix q = concat (map encode_group (butlast (runs ops)))
                        @ open_group (last (runs ops))
     \<and> req_count q = of_nat (length (runs ops))"

section \<open>Example values\<close>

text \<open>Constants as the driver's header is commonly given, an idle device, and a
  co-processor that answers nothing. They serve the examples below; the general
  theorems do not depend on them.\<close>

definition example_consts :: icc_consts where
  "example_consts =
     \<lparr> ICC_MAGIC = 0x42, ICC_EVENT_MAGIC = 0x24, ICC_REPLY = 0x4000, ICC_EVENT = 0x8000,
       ICC_MIN_SIZE = 0x20, ICC_MAX_SIZE = 0x7f0,
       ICC_MIN_PAYLOAD = 0x14, ICC_MAX_PAYLOAD = 0x7e4 \<rparr>"

definition zero_hdr :: icc_message_hdr where
  "zero_hdr = \<lparr> hdr_magic = 0, hdr_major = 0, hdr_minor = 0, hdr_unknown = 0,
                hdr_cookie = 0, hdr_length = 0, hdr_checksum = 0 \<rparr>"

definition idle_dev :: apcie_dev where
  "idle_dev =
     \<lparr> request = zero_hdr, reply = zero_hdr, reply_pending = False, reply_buffer = None,
       reply_length = 0, reply_extra_checksum = 0,
       req_empty = 1, req_full = 0, req_window = (\<lambda>i. 0),
       rep_empty = 1, rep_full = 0, rep_window = (\<lambda>i. 0),
       heap = (\<lambda>a. replicate 8 0), trace = [] \<rparr>"

definition silent_env :: wait_env where
  "silent_env = \<lparr> remote_drains = True, arrivals = [], signalled = False \<rparr>"

definition no_bpcie ::
  "icc_globals \<Rightarrow> u8 \<Rightarrow> u16 \<Rightarrow> u8 list \<Rightarrow> u16 \<Rightarrow> nat option \<Rightarrow> u16 \<Rightarrow> int \<times> icc_globals" where
  "no_bpcie g major minor data len rbuf rlen = (- EIO, g)"

definition example_reply_hdr :: icc_message_hdr where
  "example_reply_hdr =
     \<lparr> hdr_magic = 0x42, hdr_major = 5, hdr_minor = 0x4000, hdr_unknown = 0,
       hdr_cookie = 1, hdr_length = 14, hdr_checksum = 0xA6 \<rparr>"

definition example_payload :: "u8 list" where
  "example_payload = [7, 9]"

definition second_reply_hdr :: icc_message_hdr where
  "second_reply_hdr = example_reply_hdr\<lparr>hdr_cookie := 2, hdr_checksum := 0xA7\<rparr>"

definition stale_reply_hdr :: icc_message_hdr where
  "stale_reply_hdr = example_reply_hdr\<lparr>hdr_cookie := 0x77\<rparr>"

definition answering_env :: wait_env where
  "answering_env =
     \<lparr> remote_drains = True, arrivals = [hdr_bytes example_reply_hdr @ example_payload],
       signalled = False \<rparr>"

definition dead_env :: wait_env where
  "dead_env = \<lparr> remote_drains = False, arrivals = [], signalled = False \<rparr>"


definition failing_transport :: "unit transport" where
  "failing_transport w major minor data len rep cap = (- 110, rep, w)"

definition rejecting_transport :: "unit transport" where
  "rejecting_transport w major minor data len rep cap = (5, rep(0 := 1), w)"

definition counting_transport :: "nat transport" where
  "counting_transport w major minor data len rep cap = (6, (\<lambda>i. 0), Suc w)"



definition empty_queue :: i2c_cmdqueue where
  "empty_queue =
     \<lparr> req_code = 0, req_length = 0, req_count = 0, cmdbuf = (\<lambda>i. 0), q_reply = (\<lambda>i. 0),
       q_p = 0, q_cmd = None \<rparr>"

section \<open>Properties of the transport\<close>

subsection \<open>Checksum and windows\<close>

lemma checksum_loop_acc: "checksum_loop s p = s + checksum_loop 0 p"
proof (induction p arbitrary: s)
  case Nil show ?case by simp
next
  case (Cons b p)
  have "checksum_loop s (b # p) = (s + ucast b) + checksum_loop 0 p"
    using Cons [of "s + ucast b"] by simp
  also have "\<dots> = s + checksum_loop 0 (b # p)"
    using Cons [of "ucast b"] by simp
  finally show ?case .
qed

lemma checksum_Nil [simp]: "checksum [] = 0"
  by (simp add: checksum_def)

lemma checksum_Cons: "checksum (b # p) = ucast b + checksum p"
  using checksum_loop_acc [of "ucast b" p] by (simp add: checksum_def)

lemma checksum_append: "checksum (p @ q) = checksum p + checksum q"
  by (induction p) (simp_all add: checksum_Cons)

lemma checksum_of_nat: "checksum p = of_nat (sum_list (map unat p))"
  by (induction p) (simp_all add: checksum_Cons)

lemma checksum_unat: "unat (checksum p) = sum_list (map unat p) mod 2 ^ 16"
  by (simp add: checksum_of_nat unat_of_nat)

lemma checksum_mset: "mset p = mset q \<Longrightarrow> checksum p = checksum q"
proof -
  assume "mset p = mset q"
  then have "mset (map unat p) = mset (map unat q)" by (metis mset_map)
  then have "sum_list (map unat p) = sum_list (map unat q)"
    by (metis sum_mset_sum_list)
  then show ?thesis by (simp add: checksum_of_nat)
qed

lemma checksum_replicate_0: "checksum (replicate n 0) = 0"
  by (induction n) (simp_all add: checksum_Cons)


lemma le16_lo_hi [simp]: "le16 (lo8 w) (hi8 w) = w"
  unfolding le16_def lo8_def hi8_def
  apply (rule bit_word_eqI)
  apply (auto simp add: bit_simps)
  done

lemma length_hdr_bytes [simp]: "length (hdr_bytes h) = 12"
  by (simp add: hdr_bytes_def)

lemma write_window_at_0: "i < length bs \<Longrightarrow> write_window w 0 bs i = bs ! i"
  by (simp add: write_window_def)

lemma hdr_of_window_hdr_bytes:
  "hdr_of_window (write_window w 0 (hdr_bytes h @ payload)) = h"
  by (simp add: hdr_of_window_def write_window_at_0 nth_append, simp add: hdr_bytes_def)

lemma read_window_write_window:
  "off + n \<le> length bs \<Longrightarrow> read_window (write_window w 0 bs) off n = take n (drop off bs)"
  by (rule nth_equalityI) (simp_all add: read_window_def write_window_def)

lemma extra_checksum_loop_eq:
  "extra_checksum_loop w off len acc = acc + checksum (read_window w off (len - off))"
proof (induction w off len acc rule: extra_checksum_loop.induct)
  case (1 w off len acc)
  show ?case
  proof (cases "off < len")
    case True
    then have "[off ..< off + (len - off)] = off # [Suc off ..< Suc off + (len - Suc off)]"
      by (simp add: upt_conv_Cons)
    then have "read_window w off (len - off) = w off # read_window w (Suc off) (len - Suc off)"
      by (simp add: read_window_def)
    with True "1" show ?thesis
      by (subst extra_checksum_loop.simps) (simp add: checksum_Cons)
  next
    case False
    then show ?thesis
      by (subst extra_checksum_loop.simps) (simp add: read_window_def)
  qed
qed

subsection \<open>Accepting and dropping replies\<close>

lemma quiet_emit:
  "WakeUp \<notin> set es \<Longrightarrow> \<exists>es'. emit es sc = emit es' sc \<and> WakeUp \<notin> set es'"
  by blast

lemma handle_message_bad_cookie:
  assumes "hdr_cookie (hdr_of_window (rep_window sc)) \<noteq> hdr_cookie (request sc)"
  shows "\<exists>es. handle_message k sc = emit es sc \<and> WakeUp \<notin> set es"
proof -
  let ?msg = "hdr_of_window (rep_window sc)"
  have ev: "\<exists>es. handle_event sc ?msg = emit es sc \<and> WakeUp \<notin> set es"
  proof -
    let ?key = "push_bit 16 (uint (hdr_major ?msg)) OR uint (hdr_minor ?msg)"
    consider "?key = 0x088010" | "?key \<noteq> 0x088010" "?key = 0x088011"
      | "?key \<noteq> 0x088010" "?key \<noteq> 0x088011" by blast
    then show ?thesis
    proof cases
      case 1
      then show ?thesis
        by (intro exI [of _ "[PwrButtonTrigger 1]"]) (simp add: handle_event_def)
    next
      case 2
      then show ?thesis
        by (intro exI [of _ "[PwrButtonTrigger 0]"]) (simp add: handle_event_def)
    next
      case 3
      then show ?thesis
        by (intro exI [of _ "[Log ''icc: event arrived, not yet supported.'', DumpMessage]"])
           (simp add: handle_event_def)
    qed
  qed
  show ?thesis
    unfolding handle_message_def Let_def
    using assms by (simp add: ev quiet_emit)
qed

lemma handle_message_accept:
  assumes ok: "reply_frame_ok k h payload"
    and pend: "reply_pending sc"
    and cookie: "hdr_cookie h = hdr_cookie (request sc)"
  shows "handle_message k (remote_send (hdr_bytes h @ payload) sc) =
           emit [WakeUp]
             ((remote_send (hdr_bytes h @ payload) sc)
                \<lparr>heap := store_buf (heap sc) (reply_buffer sc)
                           (take (min (reply_length sc) (length payload)) payload),
                 reply_extra_checksum :=
                   checksum (drop (min (reply_length sc) (length payload)) payload),
                 reply_pending := False,
                 reply_length := min (reply_length sc) (length payload),
                 reply := h\<rparr>)"
proof -
  let ?f = "hdr_bytes h @ payload"
  let ?sc = "remote_send ?f sc"
  let ?n = "min (reply_length sc) (length payload)"
  have msg: "hdr_of_window (rep_window ?sc) = h"
    by (simp add: remote_send_def hdr_of_window_hdr_bytes)
  have L: "unat (hdr_length h) = ICC_HDR_SIZE + length payload"
    using ok by (simp add: reply_frame_ok_def)
  have copy: "read_window (rep_window ?sc) ICC_HDR_SIZE ?n = take ?n payload"
    by (simp add: remote_send_def read_window_write_window ICC_HDR_SIZE_def)
  have "read_window (rep_window ?sc) (ICC_HDR_SIZE + ?n)
          (ICC_HDR_SIZE + length payload - (ICC_HDR_SIZE + ?n)) = drop ?n payload"
    by (simp add: remote_send_def read_window_write_window ICC_HDR_SIZE_def)
  then have extra:
    "extra_checksum_loop (rep_window ?sc) (ICC_HDR_SIZE + ?n) (ICC_HDR_SIZE + length payload) 0
       = checksum (drop ?n payload)"
    by (simp add: extra_checksum_loop_eq)
  have flags: "rep_empty ?sc = 0" "rep_full ?sc = 1" "reply_pending ?sc"
     "request ?sc = request sc" "reply_length ?sc = reply_length sc"
     "heap ?sc = heap sc" "reply_buffer ?sc = reply_buffer sc"
    using pend by (simp_all add: remote_send_def)
  show ?thesis
    unfolding handle_message_def Let_def msg
    using ok cookie flags by (simp add: reply_frame_ok_def L copy extra)
qed

lemma remote_send_emit: "remote_send f (emit es sc) = emit es (remote_send f sc)"
  by (simp add: remote_send_def emit_def)

lemma icc_interrupt_send_only:
  "icc_interrupt k [APCIE_ICC_SEND, 0] sc =
     (True, emit [Doorbell APCIE_ICC_ACK]
              ((handle_message k (emit [StatusWrite APCIE_ICC_SEND] sc))
                 \<lparr>rep_full := 0, rep_empty := 1\<rparr>))"
  by (simp add: icc_interrupt_def APCIE_ICC_SEND_def APCIE_ICC_ACK_def)

lemma deliver_accept:
  assumes ok: "reply_frame_ok k h payload"
    and pend: "reply_pending sc"
    and cookie: "hdr_cookie h = hdr_cookie (request sc)"
  shows "accepted sc h payload (remote_deliver k [hdr_bytes h @ payload] sc)"
proof -
  let ?sc = "emit [StatusWrite APCIE_ICC_SEND] sc"
  have "reply_pending ?sc" "hdr_cookie h = hdr_cookie (request ?sc)"
    using pend cookie by (simp_all add: emit_def)
  from handle_message_accept [OF ok this]
  show ?thesis
    by (simp add: icc_interrupt_send_only remote_send_emit [symmetric] accepted_def Let_def)
       (simp add: emit_def remote_send_def)
qed

subsection \<open>One request and its reply\<close>

lemma send_ok:
  assumes "unat len \<le> ICC_MAX_PAYLOAD k" "req_empty sc = 1" "req_full sc = 0"
  shows "\<exists>sc1. u_apcie_icc_cmd_send k sc major minor data len rbuf rlen = Inr sc1 \<and>
           reply_pending sc1 \<and> hdr_cookie (request sc1) = hdr_cookie (request sc) + 1 \<and>
           reply_buffer sc1 = rbuf \<and> reply_length sc1 = unat rlen \<and> heap sc1 = heap sc \<and>
           trace sc1 = trace sc @ [Doorbell APCIE_ICC_SEND]"
  using assms by (simp add: u_apcie_icc_cmd_send_def Let_def emit_def)

lemma finish_fields:
  "\<not> reply_pending (snd (u_apcie_icc_cmd_finish k sc major minor rbuf ret))"
  "reply_buffer (snd (u_apcie_icc_cmd_finish k sc major minor rbuf ret)) = None"
  "heap (snd (u_apcie_icc_cmd_finish k sc major minor rbuf ret)) = heap sc"
  by (simp_all add: u_apcie_icc_cmd_finish_def Let_def emit_def)

lemma finish_failed:
  assumes "ret < 0 \<or> reply_pending sc"
  shows "fst (u_apcie_icc_cmd_finish k sc major minor rbuf ret)
           = (if ret < 0 then - EINTR else - ETIMEDOUT)"
  using assms by (simp add: u_apcie_icc_cmd_finish_def Let_def)

lemma finish_replied:
  assumes "\<not> ret < 0" "\<not> reply_pending sc"
  shows "fst (u_apcie_icc_cmd_finish k sc major minor rbuf ret) =
     (if hdr_checksum (reply sc) \<noteq>
           checksum (hdr_bytes ((reply sc)\<lparr>hdr_checksum := 0\<rparr>))
           + checksum (load_buf (heap sc) rbuf (reply_length sc))
           + reply_extra_checksum sc then - EIO
      else if hdr_major (reply sc) \<noteq> major then - EIO
      else if hdr_minor (reply sc) \<noteq> (minor OR ICC_REPLY k) then - EIO
      else int (unat (hdr_length (reply sc))) - int ICC_HDR_SIZE)"
proof -
  have "(a - b - c - d = 0) = (a = b + c + d)" for a b c d :: u16
    by (simp add: algebra_simps)
  with assms show ?thesis
    by (simp add: u_apcie_icc_cmd_finish_def Let_def)
qed

lemma finish_mismatch_log:
  assumes "\<not> ret < 0" "\<not> reply_pending sc"
    "hdr_checksum (reply sc) \<noteq>
           checksum (hdr_bytes ((reply sc)\<lparr>hdr_checksum := 0\<rparr>))
           + checksum (load_buf (heap sc) rbuf (reply_length sc))
           + reply_extra_checksum sc"
  shows "trace (snd (u_apcie_icc_cmd_finish k sc major minor rbuf ret))
           = trace sc @ [Log ''icc: checksum mismatch'']"
proof -
  have "(a - b - c - d = 0) = (a = b + c + d)" for a b c d :: u16
    by (simp add: algebra_simps)
  with assms show ?thesis
    by (simp add: u_apcie_icc_cmd_finish_def Let_def emit_def)
qed

lemma load_store_buf:
  assumes "rbuf = None \<longrightarrow> n = 0" "length bs = n"
  shows "load_buf (store_buf h rbuf bs) rbuf n = bs"
  using assms by (cases rbuf) (simp_all add: load_buf_def store_buf_def)

lemma roundtrip:
  fixes major :: u8 and minor :: u16 and data :: "u8 list" and intr :: bool
  assumes len: "unat len \<le> ICC_MAX_PAYLOAD k"
    and idle: "req_empty sc = 1" "req_full sc = 0"
    and ok: "reply_frame_ok k h payload"
    and cookie: "hdr_cookie h = hdr_cookie (request sc) + 1"
    and buf: "rbuf = None \<longrightarrow> rlen = 0"
    and arr: "arrivals env = [hdr_bytes h @ payload]"
  defines "r \<equiv> u_apcie_icc_cmd k env sc major minor data len rbuf rlen intr"
    and "n \<equiv> min (unat rlen) (length payload)"
  shows "fst r = (if \<not> frame_checksum_ok h payload then - EIO
                  else if hdr_major h \<noteq> major then - EIO
                  else if hdr_minor h \<noteq> (minor OR ICC_REPLY k) then - EIO
                  else int (length payload))"
    and "heap (snd r) = store_buf (heap sc) rbuf (take n payload)"
    and "\<not> reply_pending (snd r)"
    and "reply_buffer (snd r) = None"
    and "\<not> frame_checksum_ok h payload \<Longrightarrow>
           trace (snd r) = trace sc @ [Doorbell APCIE_ICC_SEND, StatusWrite APCIE_ICC_SEND, WakeUp,
              Doorbell APCIE_ICC_ACK, Log ''icc: checksum mismatch'']"
proof -
  obtain sc1 where s: "u_apcie_icc_cmd_send k sc major minor data len rbuf rlen = Inr sc1"
    and s1: "reply_pending sc1" "hdr_cookie (request sc1) = hdr_cookie (request sc) + 1"
      "reply_buffer sc1 = rbuf" "reply_length sc1 = unat rlen" "heap sc1 = heap sc"
      "trace sc1 = trace sc @ [Doorbell APCIE_ICC_SEND]"
    using send_ok [OF len idle] by blast
  define sc1' where "sc1' = (if remote_drains env then sc1\<lparr>req_empty := 1, req_full := 0\<rparr> else sc1)"
  define sc2 where "sc2 = remote_deliver k [hdr_bytes h @ payload] sc1'"
  have s1': "reply_pending sc1'" "hdr_cookie h = hdr_cookie (request sc1')"
      "reply_buffer sc1' = rbuf" "reply_length sc1' = unat rlen" "heap sc1' = heap sc"
      "trace sc1' = trace sc @ [Doorbell APCIE_ICC_SEND]"
    using s1 cookie by (simp_all add: sc1'_def)
  have acc: "accepted sc1' h payload sc2"
    unfolding sc2_def by (rule deliver_accept [OF ok s1'(1,2)])
  then have np: "\<not> reply_pending sc2" by (simp add: accepted_def Let_def)
  have w: "wait_event k env intr sc1 = (1, sc2)"
    using np by (simp add: wait_event_def Let_def arr sc2_def sc1'_def)
  have r: "r = u_apcie_icc_cmd_finish k sc2 major minor rbuf 1"
    by (simp add: r_def u_apcie_icc_cmd_def s w)
  have f: "reply sc2 = h" "reply_length sc2 = n"
    "reply_extra_checksum sc2 = checksum (drop n payload)"
    "heap sc2 = store_buf (heap sc) rbuf (take n payload)"
    "trace sc2 = trace sc @ [Doorbell APCIE_ICC_SEND, StatusWrite APCIE_ICC_SEND, WakeUp,
              Doorbell APCIE_ICC_ACK]"
    using acc s1' by (simp_all add: accepted_def Let_def n_def)
  have "rbuf = None \<longrightarrow> n = 0" using buf by (simp add: n_def)
  then have ld': "load_buf (store_buf (heap sc) rbuf (take n payload)) rbuf n = take n payload"
    by (rule load_store_buf) (simp add: n_def)
  then have ld: "load_buf (heap sc2) rbuf (reply_length sc2) = take n payload"
    by (simp add: f)
  have sum: "checksum (hdr_bytes (h\<lparr>hdr_checksum := 0\<rparr>))
               + checksum (take n payload) + checksum (drop n payload)
             = checksum (hdr_bytes (h\<lparr>hdr_checksum := 0\<rparr>) @ payload)"
    using checksum_append [of "take n payload" "drop n payload"]
    by (simp add: checksum_append add.assoc)
  have L: "unat (hdr_length h) = ICC_HDR_SIZE + length payload"
    using ok by (simp add: reply_frame_ok_def)
  show "fst r = (if \<not> frame_checksum_ok h payload then - EIO
                  else if hdr_major h \<noteq> major then - EIO
                  else if hdr_minor h \<noteq> (minor OR ICC_REPLY k) then - EIO
                  else int (length payload))"
    unfolding r using np
    by (simp add: finish_replied ld f(1,3) sum frame_checksum_ok_def L)
  show "heap (snd r) = store_buf (heap sc) rbuf (take n payload)"
    unfolding r by (simp add: finish_fields f)
  show "\<not> reply_pending (snd r)" "reply_buffer (snd r) = None"
    unfolding r by (simp_all add: finish_fields)
  show "trace (snd r) = trace sc @ [Doorbell APCIE_ICC_SEND, StatusWrite APCIE_ICC_SEND, WakeUp,
              Doorbell APCIE_ICC_ACK, Log ''icc: checksum mismatch'']"
    if "\<not> frame_checksum_ok h payload"
    unfolding r using np that
    by (subst finish_mismatch_log) (simp_all add: ld' f sum frame_checksum_ok_def)
qed

lemma send_request_hdr:
  assumes "u_apcie_icc_cmd_send k sc major minor data len rbuf rlen = Inr sc'"
  shows "\<exists>r1. hdr_checksum r1 = 0 \<and>
           request sc' = r1\<lparr>hdr_checksum :=
                            checksum (hdr_bytes r1) + checksum (take (unat len) data)\<rparr>"
proof -
  define r0 where "r0 = (request sc)\<lparr>hdr_magic := ICC_MAGIC k, hdr_major := major,
                    hdr_minor := minor, hdr_cookie := hdr_cookie (request sc) + 1,
                    hdr_length := of_nat ICC_HDR_SIZE + len, hdr_checksum := 0\<rparr>"
  define r1 where "r1 = (if unat (hdr_length r0) < ICC_MIN_SIZE k
                  then r0\<lparr>hdr_length := of_nat (ICC_MIN_SIZE k)\<rparr> else r0)"
  have z: "hdr_checksum r1 = 0" by (simp add: r1_def r0_def)
  have "request sc' = r1\<lparr>hdr_checksum :=
                            checksum (hdr_bytes r1) + checksum (take (unat len) data)\<rparr>"
    using assms unfolding u_apcie_icc_cmd_send_def Let_def r0_def [symmetric] r1_def [symmetric]
    by (auto simp add: emit_def split: if_splits)
  with z show ?thesis by blast
qed

lemma send_request_checksum:
  assumes "u_apcie_icc_cmd_send k sc major minor data len rbuf rlen = Inr sc'"
  shows "hdr_checksum (request sc') =
           checksum (hdr_bytes ((request sc')\<lparr>hdr_checksum := 0\<rparr>) @ take (unat len) data)"
proof -
  obtain r1 where z: "hdr_checksum r1 = 0"
    and r: "request sc' = r1\<lparr>hdr_checksum :=
                            checksum (hdr_bytes r1) + checksum (take (unat len) data)\<rparr>"
    using send_request_hdr [OF assms] by blast
  have "(request sc')\<lparr>hdr_checksum := 0\<rparr> = r1" using z by (simp add: r)
  then show ?thesis by (simp add: checksum_append) (simp add: r)
qed

lemma send_request_window:
  assumes "u_apcie_icc_cmd_send k sc major minor data len rbuf rlen = Inr sc'"
    and "unat len \<le> length data"
  shows "read_window (req_window sc') 0
           (ICC_HDR_SIZE + unat len + (ICC_MIN_PAYLOAD k - unat len)) =
         hdr_bytes (request sc') @ take (unat len) data
           @ replicate (ICC_MIN_PAYLOAD k - unat len) 0"
proof (rule nth_equalityI)
  show "length (read_window (req_window sc') 0
           (ICC_HDR_SIZE + unat len + (ICC_MIN_PAYLOAD k - unat len))) =
        length (hdr_bytes (request sc') @ take (unat len) data
           @ replicate (ICC_MIN_PAYLOAD k - unat len) 0)"
    using assms(2) by (simp add: read_window_def ICC_HDR_SIZE_def)
next
  fix i
  assume "i < length (read_window (req_window sc') 0
           (ICC_HDR_SIZE + unat len + (ICC_MIN_PAYLOAD k - unat len)))"
  then have i: "i < 12 + unat len + (ICC_MIN_PAYLOAD k - unat len)"
    by (simp add: read_window_def ICC_HDR_SIZE_def)
  show "read_window (req_window sc') 0
           (ICC_HDR_SIZE + unat len + (ICC_MIN_PAYLOAD k - unat len)) ! i =
        (hdr_bytes (request sc') @ take (unat len) data
           @ replicate (ICC_MIN_PAYLOAD k - unat len) 0) ! i"
    using assms i
    by (auto simp add: u_apcie_icc_cmd_send_def Let_def emit_def read_window_def
          write_window_def ICC_HDR_SIZE_def nth_append split: if_splits)
qed

lemma handle_message_req_flags:
  "req_empty (handle_message k sc) = req_empty sc"
  "req_full (handle_message k sc) = req_full sc"
  by (simp_all add: handle_message_def handle_event_def Let_def emit_def)

lemma remote_deliver_req_flags:
  "req_empty (remote_deliver k fs sc) = req_empty sc \<and>
   req_full (remote_deliver k fs sc) = req_full sc"
  by (induction fs arbitrary: sc)
     (simp_all add: icc_interrupt_send_only handle_message_req_flags emit_def remote_send_def)

lemma finish_req_flags:
  "req_empty (snd (u_apcie_icc_cmd_finish k sc major minor rbuf ret)) = req_empty sc"
  "req_full (snd (u_apcie_icc_cmd_finish k sc major minor rbuf ret)) = req_full sc"
  by (simp_all add: u_apcie_icc_cmd_finish_def Let_def emit_def)

lemma wait_event_drained:
  assumes "remote_drains env"
  shows "req_empty (snd (wait_event k env intr sc)) = 1"
    "req_full (snd (wait_event k env intr sc)) = 0"
  using assms by (simp_all add: wait_event_def Let_def remote_deliver_req_flags)

lemma wait_event_ret:
  "fst (wait_event k env intr sc) =
     (if \<not> reply_pending (snd (wait_event k env intr sc)) then 1
      else if intr \<and> signalled env then - ERESTARTSYS else 0)"
  by (simp add: wait_event_def Let_def)


lemma send_slot_full:
  assumes "u_apcie_icc_cmd_send k sc major minor data len rbuf rlen = Inr sc1"
  shows "req_empty sc1 = 0" "req_full sc1 = 1"
  using assms
  by (auto simp add: u_apcie_icc_cmd_send_def Let_def emit_def split: if_splits)

lemma wait_event_not_drained:
  assumes "\<not> remote_drains env"
  shows "req_empty (snd (wait_event k env intr sc)) = req_empty sc"
    "req_full (snd (wait_event k env intr sc)) = req_full sc"
  using assms by (simp_all add: wait_event_def Let_def remote_deliver_req_flags)

lemma send_busy:
  assumes "unat len \<le> ICC_MAX_PAYLOAD k" "req_empty sc \<noteq> 1 \<or> req_full sc \<noteq> 0"
  shows "fst (u_apcie_icc_cmd k env sc major minor data len rbuf rlen intr) = - EIO"
  using assms
  by (auto simp add: u_apcie_icc_cmd_def u_apcie_icc_cmd_send_def Let_def emit_def)

lemma undrained_after_timeout:
  assumes send: "u_apcie_icc_cmd_send k sc major minor data len rbuf rlen = Inr sc1"
    and nd: "\<not> remote_drains env"
  shows "req_empty (snd (u_apcie_icc_cmd k env sc major minor data len rbuf rlen intr)) = 0"
    and "req_full (snd (u_apcie_icc_cmd k env sc major minor data len rbuf rlen intr)) = 1"
proof -
  obtain ret sc2 where w: "wait_event k env intr sc1 = (ret, sc2)" by fastforce
  have f: "req_empty sc2 = 0" "req_full sc2 = 1"
    using wait_event_not_drained [OF nd, of k intr sc1] send_slot_full [OF send] w by simp_all
  show "req_empty (snd (u_apcie_icc_cmd k env sc major minor data len rbuf rlen intr)) = 0"
    "req_full (snd (u_apcie_icc_cmd k env sc major minor data len rbuf rlen intr)) = 1"
    by (simp_all add: u_apcie_icc_cmd_def send w finish_req_flags f)
qed

lemma example_frame_ok: "reply_frame_ok example_consts example_reply_hdr example_payload"
  by (simp add: reply_frame_ok_def example_consts_def example_reply_hdr_def example_payload_def
        ICC_HDR_SIZE_def)

lemma example_frame_checksum: "frame_checksum_ok example_reply_hdr example_payload"
  by (simp add: frame_checksum_ok_def example_reply_hdr_def example_payload_def hdr_bytes_def
        checksum_def lo8_def hi8_def)


section \<open>Properties of the command queue\<close>

lemma runs_Nil_iff [simp]: "runs xs = [] \<longleftrightarrow> xs = []"
  by (cases xs) (simp_all split: list.splits)

lemma runs_nonempty: "g \<in> set (runs xs) \<Longrightarrow> g \<noteq> []"
  by (induction xs arbitrary: g) (auto split: list.splits if_splits)

lemma concat_runs: "concat (runs xs) = xs"
  by (induction xs) (auto split: list.splits)

lemma runs_uniform: "g \<in> set (runs xs) \<Longrightarrow> y \<in> set g \<Longrightarrow> opcode y = opcode (hd g)"
  by (induction xs arbitrary: g y) (auto split: list.splits if_splits)

lemma hd_runs: "xs \<noteq> [] \<Longrightarrow> hd (hd (runs xs)) = hd xs"
  by (cases xs) (auto split: list.splits)

lemma runs_snoc:
  "runs (xs @ [x]) =
     (if xs = [] then [[x]]
      else if opcode (last xs) = opcode x then butlast (runs xs) @ [last (runs xs) @ [x]]
      else runs xs @ [[x]])"
proof (induction xs)
  case Nil
  show ?case by simp
next
  case (Cons a xs)
  show ?case
  proof (cases "xs = []")
    case True
    then show ?thesis by simp
  next
    case False
    then obtain g gs where R: "runs xs = g # gs" by (cases "runs xs") auto
    have g: "g \<noteq> []" using runs_nonempty [of g xs] R by simp
    show ?thesis
    proof (cases "opcode (last xs) = opcode x")
      case True
      with False Cons have S: "runs (xs @ [x]) = butlast (runs xs) @ [last (runs xs) @ [x]]"
        by simp
      show ?thesis
      proof (cases gs)
        case Nil
        with S R g True False show ?thesis by (cases g) (auto)
      next
        case (Cons g' gs')
        with S R g True False show ?thesis by (auto)
      qed
    next
      case F: False
      with False Cons have S: "runs (xs @ [x]) = runs xs @ [[x]]" by simp
      with R g F False show ?thesis by auto
    qed
  qed
qed

lemma last_last_runs: "xs \<noteq> [] \<Longrightarrow> last (last (runs xs)) = last xs"
proof -
  assume xs: "xs \<noteq> []"
  then have "runs xs \<noteq> []" by simp
  moreover have "last (runs xs) \<noteq> []"
    using runs_nonempty [of "last (runs xs)" xs] \<open>runs xs \<noteq> []\<close> by simp
  ultimately have "last (concat (runs xs)) = last (last (runs xs))"
    by (metis append_butlast_last_id concat.simps(2) concat_append last_appendR append_Nil2 concat.simps(1))
  then show ?thesis by (simp add: concat_runs)
qed

lemma opcode_hd_last_runs:
  "xs \<noteq> [] \<Longrightarrow> opcode (hd (last (runs xs))) = opcode (last xs)"
proof -
  assume xs: "xs \<noteq> []"
  then have ne: "runs xs \<noteq> []" by simp
  then have in_set: "last (runs xs) \<in> set (runs xs)" by simp
  then have "last (runs xs) \<noteq> []" by (rule runs_nonempty)
  then have "last (last (runs xs)) \<in> set (last (runs xs))" by simp
  from runs_uniform [OF in_set this] show ?thesis
    by (simp add: last_last_runs xs)
qed

lemma length_buf_prefix [simp]: "length (buf_prefix q) = q_p q"
  by (simp add: buf_prefix_def)

lemma cmdbuf_buf_prefix: "i < q_p q \<Longrightarrow> cmdbuf q i = buf_prefix q ! i"
  by (simp add: buf_prefix_def)

lemma buf_prefix_patch:
  "i < q_p q \<Longrightarrow> buf_prefix (q\<lparr>cmdbuf := (cmdbuf q)(i := v)\<rparr>) = (buf_prefix q)[i := v]"
  by (rule nth_equalityI) (simp_all add: buf_prefix_def nth_list_update)

lemma buf_prefix_push:
  "buf_prefix (q\<lparr>cmdbuf := (cmdbuf q)(q_p q := b), q_p := Suc (q_p q)\<rparr>) = buf_prefix q @ [b]"
  by (simp add: buf_prefix_def)

lemma cq_put_fields:
  "q_p (cq_put q bs) = q_p q + length bs"
  "q_cmd (cq_put q bs) = q_cmd q"
  "req_count (cq_put q bs) = req_count q"
  "req_code (cq_put q bs) = req_code q"
  by (induction bs arbitrary: q) simp_all

lemma buf_prefix_cq_put: "buf_prefix (cq_put q bs) = buf_prefix q @ bs"
proof (induction bs arbitrary: q)
  case Nil
  show ?case by simp
next
  case (Cons b bs)
  show ?case by (simp add: Cons buf_prefix_push)
qed

lemma cq_new_cmd_fields:
  "q_p (cq_new_cmd q M m) = q_p q + 4"
  "q_cmd (cq_new_cmd q M m) = Some (q_p q)"
  "req_count (cq_new_cmd q M m) = req_count q + 1"
  "req_code (cq_new_cmd q M m) = req_code q"
  by (simp_all add: cq_new_cmd_def Let_def)

lemma buf_prefix_cq_new_cmd: "buf_prefix (cq_new_cmd q M m) = buf_prefix q @ [M, 0, m, 1]"
  by (rule nth_equalityI)
     (auto simp add: buf_prefix_def cq_new_cmd_def Let_def nth_append nth_Cons'
        simp flip: length_greater_0_conv)

lemma cq_emit_eq:
  "cq_emit q x = cq_put (cq_cmd q (fst (opcode x)) (snd (opcode x))) (operands x)"
  by (cases x)
     (simp_all add: cq_read_def cq_writereg_def cq_mask_def cq_delay_def cq_wait_set_def
        cq_wait_clear_def)

lemma emit_first:
  assumes "q_cmd q = None" "q_p q = 0"
  shows "q_cmd (cq_emit q x) = Some 0"
    and "buf_prefix (cq_emit q x) = [fst (opcode x), 0, snd (opcode x), 1] @ operands x"
    and "req_count (cq_emit q x) = req_count q + 1"
    and "req_code (cq_emit q x) = req_code q"
proof -
  have e: "buf_prefix q = []" using assms(2) by (simp add: buf_prefix_def)
  show "q_cmd (cq_emit q x) = Some 0"
    "buf_prefix (cq_emit q x) = [fst (opcode x), 0, snd (opcode x), 1] @ operands x"
    "req_count (cq_emit q x) = req_count q + 1"
    "req_code (cq_emit q x) = req_code q"
    using assms
    by (simp_all add: cq_emit_eq cq_cmd_def cq_put_fields buf_prefix_cq_put cq_new_cmd_fields
          buf_prefix_cq_new_cmd e)
qed

lemma emit_same:
  assumes "q_cmd q = Some (length closed)" "buf_prefix q = closed @ og" "4 \<le> length og"
    "og ! 0 = fst (opcode x)" "og ! 2 = snd (opcode x)"
  shows "q_cmd (cq_emit q x) = Some (length closed)"
    and "buf_prefix (cq_emit q x) = closed @ og[3 := og ! 3 + 1] @ operands x"
    and "req_count (cq_emit q x) = req_count q"
    and "req_code (cq_emit q x) = req_code q"
proof -
  let ?c = "length closed"
  have p: "q_p q = ?c + length og"
    using assms(2) length_buf_prefix [of q] by simp
  have at: "cmdbuf q (?c + i) = og ! i" if "i < length og" for i
    using that p assms(2) by (simp add: cmdbuf_buf_prefix nth_append)
  have lt: "0 < length og" "2 < length og" "3 < length og" using assms(3) by auto
  have "cmdbuf q ?c = og ! 0" using at [OF lt(1)] by simp
  moreover have "cmdbuf q (?c + 2) = og ! 2" using at [OF lt(2)] by simp
  ultimately have cmd: "cq_cmd q (fst (opcode x)) (snd (opcode x))
                    = q\<lparr>cmdbuf := (cmdbuf q)(?c + 3 := cmdbuf q (?c + 3) + 1)\<rparr>"
    using assms by (simp add: cq_cmd_def)
  have "buf_prefix (q\<lparr>cmdbuf := (cmdbuf q)(?c + 3 := cmdbuf q (?c + 3) + 1)\<rparr>)
          = (closed @ og)[?c + 3 := og ! 3 + 1]"
    using buf_prefix_patch [of "?c + 3" q] p assms(2,3) at [OF lt(3)] by simp
  then have bp: "buf_prefix (q\<lparr>cmdbuf := (cmdbuf q)(?c + 3 := cmdbuf q (?c + 3) + 1)\<rparr>)
          = closed @ og[3 := og ! 3 + 1]"
    by (simp add: list_update_append)
  show "q_cmd (cq_emit q x) = Some ?c" "req_count (cq_emit q x) = req_count q"
    "req_code (cq_emit q x) = req_code q"
    using assms(1) by (simp_all add: cq_emit_eq cmd cq_put_fields)
  show "buf_prefix (cq_emit q x) = closed @ og[3 := og ! 3 + 1] @ operands x"
    unfolding cq_emit_eq cmd buf_prefix_cq_put bp by simp
qed

lemma emit_new:
  assumes "q_cmd q = Some (length closed)" "buf_prefix q = closed @ og" "4 \<le> length og"
    "og ! 0 \<noteq> fst (opcode x) \<or> og ! 2 \<noteq> snd (opcode x)"
  shows "q_cmd (cq_emit q x) = Some (length closed + length og)"
    and "buf_prefix (cq_emit q x)
           = closed @ og[1 := of_nat (length og)]
               @ [fst (opcode x), 0, snd (opcode x), 1] @ operands x"
    and "req_count (cq_emit q x) = req_count q + 1"
    and "req_code (cq_emit q x) = req_code q"
proof -
  let ?c = "length closed"
  let ?q1 = "q\<lparr>cmdbuf := (cmdbuf q)(?c + 1 := of_nat (q_p q - ?c))\<rparr>"
  have p: "q_p q = ?c + length og"
    using assms(2) length_buf_prefix [of q] by simp
  have at: "cmdbuf q (?c + i) = og ! i" if "i < length og" for i
    using that p assms(2) by (simp add: cmdbuf_buf_prefix nth_append)
  have lt: "0 < length og" "2 < length og" "3 < length og" using assms(3) by auto
  have "cmdbuf q ?c = og ! 0" using at [OF lt(1)] by simp
  moreover have "cmdbuf q (?c + 2) = og ! 2" using at [OF lt(2)] by simp
  ultimately have cmd: "cq_cmd q (fst (opcode x)) (snd (opcode x))
                    = cq_new_cmd ?q1 (fst (opcode x)) (snd (opcode x))"
    using assms by (simp add: cq_cmd_def)
  have "buf_prefix ?q1 = (closed @ og)[?c + 1 := of_nat (length og)]"
    using buf_prefix_patch [of "?c + 1" q] p assms(2,3) by simp
  then have bp: "buf_prefix ?q1 = closed @ og[1 := of_nat (length og)]"
    by (simp add: list_update_append)
  show "q_cmd (cq_emit q x) = Some (?c + length og)"
    "req_count (cq_emit q x) = req_count q + 1" "req_code (cq_emit q x) = req_code q"
    using p by (simp_all add: cq_emit_eq cmd cq_put_fields cq_new_cmd_fields)
  show "buf_prefix (cq_emit q x)
           = closed @ og[1 := of_nat (length og)]
               @ [fst (opcode x), 0, snd (opcode x), 1] @ operands x"
    unfolding cq_emit_eq cmd buf_prefix_cq_put buf_prefix_cq_new_cmd bp by simp
qed

lemma length_encode_group [simp]: "length (encode_group g) = group_size g"
  by (simp add: encode_group_def group_size_def)

lemma length_open_group [simp]: "length (open_group g) = group_size g"
  by (simp add: open_group_def)

lemma group_size_ge_4: "4 \<le> group_size g"
  by (simp add: group_size_def)

lemma open_group_nth:
  "open_group g ! 0 = fst (opcode (hd g))"
  "open_group g ! 2 = snd (opcode (hd g))"
  "open_group g ! 3 = of_nat (length g)"
  by (simp_all add: encode_group_def open_group_def)

lemma open_group_patch:
  "(open_group g)[1 := of_nat (group_size g)] = encode_group g"
  "(open_group g)[Suc 0 := of_nat (group_size g)] = encode_group g"
  by (simp_all add: encode_group_def open_group_def)

lemma open_group_snoc:
  "g \<noteq> [] \<Longrightarrow>
   (open_group g)[3 := of_nat (length g) + 1] @ operands x = open_group (g @ [x])"
  by (simp add: encode_group_def open_group_def)

lemma open_group_single:
  "[fst (opcode x), 0, snd (opcode x), 1] @ operands x = open_group [x]"
  by (simp add: encode_group_def open_group_def)

lemma cq_inv_first: "cq_inv [x] (cq_emit (cq_init q code) x)"
proof -
  have i: "q_cmd (cq_init q code) = None" "q_p (cq_init q code) = 0"
    "req_count (cq_init q code) = 0"
    by (simp_all add: cq_init_def)
  show ?thesis
    unfolding cq_inv_def
    using emit_first [OF i(1,2), of x] i(3)
    by (simp add: open_group_single [symmetric])
qed

lemma cq_inv_step:
  assumes ne: "ops \<noteq> []" and inv: "cq_inv ops q"
  shows "cq_inv (ops @ [x]) (cq_emit q x)"
proof -
  define gs where "gs = runs ops"
  define g where "g = last gs"
  define closed where "closed = concat (map encode_group (butlast gs))"
  define og where "og = open_group g"
  have gs: "gs \<noteq> []" using ne by (simp add: gs_def)
  have g_in: "g \<in> set (runs ops)" using gs by (simp add: g_def gs_def)
  have g: "g \<noteq> []" using runs_nonempty [OF g_in] .
  have I: "q_cmd q = Some (length closed)" "buf_prefix q = closed @ og"
    "req_count q = of_nat (length gs)"
    using inv by (simp_all add: cq_inv_def closed_def og_def g_def gs_def)
  have og4: "4 \<le> length og" by (simp add: og_def group_size_ge_4)
  have og_len: "length og = group_size g" by (simp add: og_def)
  have hd_g: "opcode (hd g) = opcode (last ops)"
    using opcode_hd_last_runs [OF ne] by (simp add: g_def gs_def)
  have split: "gs = butlast gs @ [g]" using gs by (simp add: g_def)
  show ?thesis
  proof (cases "opcode (last ops) = opcode x")
    case True
    then have same: "og ! 0 = fst (opcode x)" "og ! 2 = snd (opcode x)"
      using hd_g by (simp_all add: og_def open_group_nth)
    have R: "runs (ops @ [x]) = butlast gs @ [g @ [x]]"
      using True ne by (simp add: runs_snoc gs_def g_def)
    have "og[3 := og ! 3 + 1] @ operands x = open_group (g @ [x])"
      using open_group_snoc [OF g, of x] by (simp add: og_def open_group_nth)
    then have bp: "buf_prefix (cq_emit q x) = closed @ open_group (g @ [x])"
      using emit_same(2) [OF I(1,2) og4 same] by simp
    have "length (butlast gs @ [g @ [x]]) = length gs" using gs by simp
    then show ?thesis
      unfolding cq_inv_def R
      using emit_same(1,3) [OF I(1,2) og4 same] bp I(3)
      by (simp add: closed_def)
  next
    case False
    then have diff: "og ! 0 \<noteq> fst (opcode x) \<or> og ! 2 \<noteq> snd (opcode x)"
      using hd_g by (auto simp add: og_def open_group_nth prod_eq_iff)
    have R: "runs (ops @ [x]) = gs @ [[x]]"
      using False ne by (simp add: runs_snoc gs_def)
    have cl: "concat (map encode_group gs) = closed @ encode_group g"
      using arg_cong [OF split, of "\<lambda>l. concat (map encode_group l)"]
      by (simp add: closed_def)
    have pat: "og[1 := of_nat (length og)] = encode_group g"
      by (simp add: og_len) (simp add: og_def open_group_patch)
    have bp: "buf_prefix (cq_emit q x)
                = (closed @ encode_group g) @ open_group [x]"
      using emit_new(2) [OF I(1,2) og4 diff] pat
      by (simp add: open_group_single [symmetric])
    show ?thesis
      unfolding cq_inv_def R
      using emit_new(1,3) [OF I(1,2) og4 diff] bp I(3) cl
      by (simp add: og_len)
  qed
qed

lemma cq_batch_snoc: "cq_batch q code (ops @ [x]) = cq_emit (cq_batch q code ops) x"
  by (simp add: cq_batch_def)

lemma cq_batch_inv: "ops \<noteq> [] \<Longrightarrow> cq_inv ops (cq_batch q code ops)"
proof (induction ops rule: rev_induct)
  case Nil
  then show ?case by simp
next
  case (snoc x ops)
  show ?case
  proof (cases "ops = []")
    case True
    then show ?thesis using cq_inv_first [of x q code] by (simp add: cq_batch_def)
  next
    case False
    then show ?thesis
      using cq_inv_step [OF False snoc.IH [OF False], of x] by (simp add: cq_batch_snoc)
  qed
qed

lemma cq_close_prefix:
  assumes ne: "ops \<noteq> []" and inv: "cq_inv ops q"
  shows "buf_prefix (cq_close q) = encode_batch ops"
    and "q_p (cq_close q) = length (encode_batch ops)"
    and "req_count (cq_close q) = of_nat (length (runs ops))"
    and "req_length (cq_close q) = of_nat (length (encode_batch ops) + 4)"
proof -
  define gs where "gs = runs ops"
  define g where "g = last gs"
  define closed where "closed = concat (map encode_group (butlast gs))"
  define og where "og = open_group g"
  have gs: "gs \<noteq> []" using ne by (simp add: gs_def)
  have I: "q_cmd q = Some (length closed)" "buf_prefix q = closed @ og"
    "req_count q = of_nat (length gs)"
    using inv by (simp_all add: cq_inv_def closed_def og_def g_def gs_def)
  have og_len: "length og = group_size g" by (simp add: og_def)
  have p: "q_p q = length closed + length og"
    using I(2) length_buf_prefix [of q] by simp
  have split: "gs = butlast gs @ [g]" using gs by (simp add: g_def)
  have cl: "encode_batch ops = closed @ encode_group g"
    using arg_cong [OF split, of "\<lambda>l. concat (map encode_group l)"]
    by (simp add: closed_def encode_batch_def gs_def)
  let ?q1 = "q\<lparr>cmdbuf := (cmdbuf q)(length closed + 1 := of_nat (q_p q - length closed))\<rparr>"
  have c: "cq_close q = ?q1\<lparr>req_length := of_nat (q_p ?q1 + 4)\<rparr>"
    by (simp add: cq_close_def I(1) Let_def)
  have "buf_prefix ?q1 = (closed @ og)[length closed + 1 := of_nat (length og)]"
    using buf_prefix_patch [of "length closed + 1" q] p I(2) group_size_ge_4 [of g]
    by (simp add: og_len)
  then have bp: "buf_prefix ?q1 = closed @ encode_group g"
    by (simp add: list_update_append og_len) (simp add: og_def open_group_patch)
  have same: "buf_prefix (?q1\<lparr>req_length := v\<rparr>) = buf_prefix ?q1" for v
    by (simp add: buf_prefix_def)
  show "buf_prefix (cq_close q) = encode_batch ops"
    unfolding c same bp cl ..
  show "q_p (cq_close q) = length (encode_batch ops)"
    unfolding c cl using p by (simp add: og_len)
  show "req_count (cq_close q) = of_nat (length (runs ops))"
    unfolding c using I(3) by (simp add: gs_def)
  show "req_length (cq_close q) = of_nat (length (encode_batch ops) + 4)"
    unfolding c cl using p by (simp add: og_len)
qed

lemma cq_batch_encoded:
  "buf_prefix (cq_close (cq_batch q code ops)) = encode_batch ops"
  "q_p (cq_close (cq_batch q code ops)) = length (encode_batch ops)"
  "req_count (cq_close (cq_batch q code ops)) = of_nat (length (runs ops))"
proof -
  have e: "cq_close (cq_batch q code []) = cq_init q code"
    by (simp add: cq_batch_def cq_close_def cq_init_def)
  show "buf_prefix (cq_close (cq_batch q code ops)) = encode_batch ops"
    using cq_close_prefix(1) [OF _ cq_batch_inv, of ops q code] e
    by (cases "ops = []") (simp_all add: encode_batch_def buf_prefix_def cq_init_def)
  show "q_p (cq_close (cq_batch q code ops)) = length (encode_batch ops)"
    using cq_close_prefix(2) [OF _ cq_batch_inv, of ops q code] e
    by (cases "ops = []") (simp_all add: encode_batch_def cq_init_def)
  show "req_count (cq_close (cq_batch q code ops)) = of_nat (length (runs ops))"
    using cq_close_prefix(3) [OF _ cq_batch_inv, of ops q code] e
    by (cases "ops = []") (simp_all add: cq_init_def)
qed

lemma length_operands_ge_4: "4 \<le> length (operands x)"
  by (cases x) simp_all

lemma group_size_ge_8: "g \<noteq> [] \<Longrightarrow> 8 \<le> group_size g"
  using length_operands_ge_4 [of "hd g"] by (cases g) (simp_all add: group_size_def)

lemma group_size_gt_length: "length g < group_size g"
proof -
  have "length g \<le> length (concat (map operands g))"
  proof (induction g)
    case Nil
    show ?case by simp
  next
    case (Cons x g)
    then show ?case using length_operands_ge_4 [of x] by simp
  qed
  then show ?thesis by (simp add: group_size_def)
qed

lemma length_encode_groups:
  "(\<And>g. g \<in> set gs \<Longrightarrow> g \<noteq> []) \<Longrightarrow> 8 * length gs \<le> length (concat (map encode_group gs))"
proof (induction gs)
  case Nil
  show ?case by simp
next
  case (Cons g gs)
  have "8 \<le> group_size g" using Cons.prems [of g] by (simp add: group_size_ge_8)
  moreover have "8 * length gs \<le> length (concat (map encode_group gs))"
    using Cons.IH Cons.prems by simp
  ultimately show ?case by simp
qed

lemma runs_count_bound: "8 * length (runs ops) \<le> length (encode_batch ops)"
  unfolding encode_batch_def by (rule length_encode_groups) (rule runs_nonempty)

lemma runs_replicate: "0 < n \<Longrightarrow> runs (replicate n x) = [replicate n x]"
proof (induction n)
  case 0
  then show ?case by simp
next
  case (Suc n)
  then show ?case by (cases n) simp_all
qed

lemma operands_replicate_writereg:
  "length (concat (map operands (replicate n (WriteReg a d)))) = 4 * n"
  by (induction n) simp_all


section \<open>Properties of the control-operation entry point\<close>





lemma emit_scratch_ok [simp]: "scratch_ok N tmp (emit es sc) = scratch_ok N tmp sc"
  by (simp add: emit_def scratch_ok_def)






section \<open>The claims\<close>

text \<open>
  C1. The claim: every call of \<^verbatim>\<open>apcie_icc_cmd\<close> takes the mailbox mutex and releases
  it on every return path. On the path where no device is registered the function
  returns \<^verbatim>\<open>-EAGAIN\<close> with the mutex still held, and the next call never returns.
\<close>

theorem apcie_icc_cmd_not_ready_keeps_mutex:
  "apcie_icc_cmd k env bp
       \<lparr> bpcie_initialized = False, icc_mutex = False, icc_sc = None, icc_log = [] \<rparr>
       major minor data len rbuf rlen
     = Some (- EAGAIN,
         \<lparr> bpcie_initialized = False, icc_mutex = True, icc_sc = None,
           icc_log = [Log ''icc: not ready''] \<rparr>)
   \<and> apcie_icc_cmd k env' bp
       \<lparr> bpcie_initialized = False, icc_mutex = True, icc_sc = None,
         icc_log = [Log ''icc: not ready''] \<rparr>
       major' minor' data' len' rbuf' rlen' = None"
  by (simp add: apcie_icc_cmd_def)

theorem apcie_icc_cmd_not_ready_witness:
  "apcie_icc_cmd example_consts silent_env no_bpcie
       \<lparr> bpcie_initialized = False, icc_mutex = False, icc_sc = None, icc_log = [] \<rparr>
       5 0 [3] 1 (Some 0) 8
     = Some (- EAGAIN,
         \<lparr> bpcie_initialized = False, icc_mutex = True, icc_sc = None,
           icc_log = [Log ''icc: not ready''] \<rparr>)
   \<and> apcie_icc_cmd example_consts silent_env no_bpcie
       \<lparr> bpcie_initialized = False, icc_mutex = True, icc_sc = None,
         icc_log = [Log ''icc: not ready''] \<rparr>
       5 0 [3] 1 (Some 0) 8 = None"
  using apcie_icc_cmd_not_ready_keeps_mutex
          [of example_consts silent_env no_bpcie 5 0 "[3]" 1 "Some 0" 8 silent_env 5 0 "[3]" 1 "Some 0" 8]
  by simp

text \<open>
  C2. A frame whose cookie is not the outstanding request's leaves the mailbox state as
  it was, apart from log lines, and wakes nobody. A well-formed reply with the right
  cookie that follows it is accepted: the wait returns a positive value, the pending
  flag is clear, the reply is saved and the waiter is woken once.
\<close>

theorem bad_cookie_reply_dropped:
  assumes bad: "hdr_cookie hb \<noteq> hdr_cookie (request sc)"
  shows "(\<exists>es. handle_message k (remote_send (hdr_bytes hb @ pb) sc)
                 = emit es (remote_send (hdr_bytes hb @ pb) sc) \<and> WakeUp \<notin> set es)
     \<and> (reply_pending sc \<and> reply_frame_ok k h payload \<and> hdr_cookie h = hdr_cookie (request sc)
          \<longrightarrow>
         (\<exists>sc' es. wait_event k
                   \<lparr>remote_drains = d, arrivals = [hdr_bytes hb @ pb, hdr_bytes h @ payload],
                    signalled = sg\<rparr> intr sc = (1, sc')
            \<and> \<not> reply_pending sc' \<and> reply sc' = h
            \<and> heap sc' = store_buf (heap sc) (reply_buffer sc)
                            (take (min (reply_length sc) (length payload)) payload)
            \<and> trace sc' = trace sc @ es @ [StatusWrite APCIE_ICC_SEND, WakeUp, Doorbell APCIE_ICC_ACK]
            \<and> WakeUp \<notin> set es))"
proof -
  let ?bf = "hdr_bytes hb @ pb"
  have drop: "\<exists>es. handle_message k (remote_send ?bf s) = emit es (remote_send ?bf s)
                    \<and> WakeUp \<notin> set es"
    if "hdr_cookie hb \<noteq> hdr_cookie (request s)" for s
  proof (rule handle_message_bad_cookie)
    show "hdr_cookie (hdr_of_window (rep_window (remote_send ?bf s)))
            \<noteq> hdr_cookie (request (remote_send ?bf s))"
      using that by (simp add: remote_send_def hdr_of_window_hdr_bytes)
  qed
  have part2: "\<exists>sc' es. wait_event k
                   \<lparr>remote_drains = d, arrivals = [?bf, hdr_bytes h @ payload],
                    signalled = sg\<rparr> intr sc = (1, sc')
            \<and> \<not> reply_pending sc' \<and> reply sc' = h
            \<and> heap sc' = store_buf (heap sc) (reply_buffer sc)
                            (take (min (reply_length sc) (length payload)) payload)
            \<and> trace sc' = trace sc @ es @ [StatusWrite APCIE_ICC_SEND, WakeUp, Doorbell APCIE_ICC_ACK]
            \<and> WakeUp \<notin> set es"
    if pend: "reply_pending sc" and ok: "reply_frame_ok k h payload"
      and good: "hdr_cookie h = hdr_cookie (request sc)"
  proof -
    define sc0 where "sc0 = (if d then sc\<lparr>req_empty := 1, req_full := 0\<rparr> else sc)"
    define X where "X = emit [StatusWrite APCIE_ICC_SEND] sc0"
    have "hdr_cookie hb \<noteq> hdr_cookie (request X)"
      using bad by (simp add: X_def sc0_def emit_def)
    from drop [OF this] obtain es where
      es: "handle_message k (remote_send ?bf X) = emit es (remote_send ?bf X)"
      and quiet: "WakeUp \<notin> set es" by blast
    define sb where "sb = snd (icc_interrupt k [APCIE_ICC_SEND, 0] (remote_send ?bf sc0))"
    have sb: "sb = emit [Doorbell APCIE_ICC_ACK]
                     ((emit es (remote_send ?bf X))\<lparr>rep_full := 0, rep_empty := 1\<rparr>)"
      by (simp add: sb_def icc_interrupt_send_only remote_send_emit [symmetric] X_def [symmetric] es)
    have f: "reply_pending sb" "hdr_cookie h = hdr_cookie (request sb)"
      "heap sb = heap sc" "reply_buffer sb = reply_buffer sc" "reply_length sb = reply_length sc"
      "trace sb = trace sc @ [StatusWrite APCIE_ICC_SEND] @ es @ [Doorbell APCIE_ICC_ACK]"
      using pend good by (simp_all add: sb emit_def remote_send_def X_def sc0_def)
    define sc' where "sc' = remote_deliver k [hdr_bytes h @ payload] sb"
    have acc: "accepted sb h payload sc'"
      unfolding sc'_def by (rule deliver_accept [OF ok f(1,2)])
    have d2: "remote_deliver k [?bf, hdr_bytes h @ payload] sc0 = sc'"
      by (simp add: sc'_def sb_def)
    have np: "\<not> reply_pending sc'" using acc by (simp add: accepted_def Let_def)
    have w: "wait_event k \<lparr>remote_drains = d, arrivals = [?bf, hdr_bytes h @ payload],
                    signalled = sg\<rparr> intr sc = (1, sc')"
      using np d2 by (simp add: wait_event_def Let_def sc0_def)
    have "reply sc' = h"
      "heap sc' = store_buf (heap sc) (reply_buffer sc)
                            (take (min (reply_length sc) (length payload)) payload)"
      "trace sc' = trace sc @ ([StatusWrite APCIE_ICC_SEND] @ es @ [Doorbell APCIE_ICC_ACK])
                     @ [StatusWrite APCIE_ICC_SEND, WakeUp, Doorbell APCIE_ICC_ACK]"
      using acc f by (simp_all add: accepted_def Let_def)
    moreover have "WakeUp \<notin> set ([StatusWrite APCIE_ICC_SEND] @ es @ [Doorbell APCIE_ICC_ACK])"
      using quiet by simp
    ultimately show ?thesis using w np by blast
  qed
  show ?thesis using drop [OF bad] part2 by blast
qed

theorem bad_cookie_reply_dropped_witness:
  "hdr_cookie stale_reply_hdr \<noteq> hdr_cookie (request (idle_dev\<lparr>reply_pending := True\<rparr>))
   \<and> reply_pending (idle_dev\<lparr>reply_pending := True\<rparr>)
   \<and> reply_frame_ok example_consts (example_reply_hdr\<lparr>hdr_cookie := 0\<rparr>) example_payload
   \<and> hdr_cookie (example_reply_hdr\<lparr>hdr_cookie := 0\<rparr>)
       = hdr_cookie (request (idle_dev\<lparr>reply_pending := True\<rparr>))
   \<and> (\<exists>sc'. wait_event example_consts
                \<lparr>remote_drains = True,
                 arrivals = [hdr_bytes stale_reply_hdr @ [],
                             hdr_bytes (example_reply_hdr\<lparr>hdr_cookie := 0\<rparr>) @ example_payload],
                 signalled = False\<rparr> False (idle_dev\<lparr>reply_pending := True\<rparr>) = (1, sc')
            \<and> \<not> reply_pending sc'
            \<and> reply sc' = example_reply_hdr\<lparr>hdr_cookie := 0\<rparr>)"
proof -
  let ?sc = "idle_dev\<lparr>reply_pending := True\<rparr>"
  let ?h = "example_reply_hdr\<lparr>hdr_cookie := 0\<rparr>"
  have b: "hdr_cookie stale_reply_hdr \<noteq> hdr_cookie (request ?sc)"
    by (simp add: stale_reply_hdr_def idle_dev_def zero_hdr_def)
  have p: "reply_pending ?sc" by simp
  have ok: "reply_frame_ok example_consts ?h example_payload"
    using example_frame_ok by (simp add: reply_frame_ok_def)
  have c: "hdr_cookie ?h = hdr_cookie (request ?sc)"
    by (simp add: idle_dev_def zero_hdr_def)
  show ?thesis
    using bad_cookie_reply_dropped
      [OF b, where k = example_consts and pb = "[]" and h = ?h and payload = example_payload
         and d = True and sg = False and intr = False]
      b p ok c
    by blast
qed

text \<open>
  C3. The checksum is the sum of the bytes modulo \<open>2^16\<close>; it is additive over
  concatenation, the same for any reordering of the bytes, and unchanged by trailing zero
  bytes. The checksum \<^verbatim>\<open>_apcie_icc_cmd\<close> stores in the request is the checksum of the
  header with the field zeroed and the payload, which is also that of the padded frame
  written to the window.
\<close>

theorem checksum_is_byte_sum:
  "unat (checksum p) = sum_list (map unat p) mod 2 ^ 16
   \<and> checksum (p @ q) = checksum p + checksum q
   \<and> (mset p = mset q \<longrightarrow> checksum p = checksum q)
   \<and> checksum (p @ replicate n 0) = checksum p
   \<and> (u_apcie_icc_cmd_send k sc major minor data len rbuf rlen = Inr sc'
        \<and> unat len \<le> length data \<longrightarrow>
       (let payload = take (unat len) data;
            pad = replicate (ICC_MIN_PAYLOAD k - unat len) 0;
            h0 = (request sc')\<lparr>hdr_checksum := 0\<rparr>
        in read_window (req_window sc') 0 (ICC_HDR_SIZE + unat len + length pad)
             = hdr_bytes (request sc') @ payload @ pad
           \<and> hdr_checksum (request sc') = checksum (hdr_bytes h0 @ payload)
           \<and> hdr_checksum (request sc') = checksum (hdr_bytes h0 @ payload @ pad)
           \<and> unat (hdr_checksum (request sc'))
               = sum_list (map unat (hdr_bytes h0 @ payload)) mod 2 ^ 16))"
proof -
  have pad: "checksum (xs @ replicate m 0) = checksum xs" for xs m
    by (simp add: checksum_append checksum_replicate_0)
  have frame: "read_window (req_window sc') 0
                 (ICC_HDR_SIZE + unat len + (ICC_MIN_PAYLOAD k - unat len))
                = hdr_bytes (request sc') @ take (unat len) data
                    @ replicate (ICC_MIN_PAYLOAD k - unat len) 0"
      "hdr_checksum (request sc')
         = checksum (hdr_bytes ((request sc')\<lparr>hdr_checksum := 0\<rparr>) @ take (unat len) data)"
    if "u_apcie_icc_cmd_send k sc major minor data len rbuf rlen = Inr sc'"
      "unat len \<le> length data"
    using send_request_window [OF that] send_request_checksum [OF that(1)] by simp_all
  have frame_pad: "hdr_checksum (request sc')
         = checksum (hdr_bytes ((request sc')\<lparr>hdr_checksum := 0\<rparr>) @ take (unat len) data
                      @ replicate (ICC_MIN_PAYLOAD k - unat len) 0)"
    if "u_apcie_icc_cmd_send k sc major minor data len rbuf rlen = Inr sc'"
      "unat len \<le> length data"
    using frame(2) [OF that]
      pad [of "hdr_bytes ((request sc')\<lparr>hdr_checksum := 0\<rparr>) @ take (unat len) data"
              "ICC_MIN_PAYLOAD k - unat len"]
    by simp
  have frame_sum: "unat (hdr_checksum (request sc'))
         = sum_list (map unat (hdr_bytes ((request sc')\<lparr>hdr_checksum := 0\<rparr>)
                                 @ take (unat len) data)) mod 2 ^ 16"
    if "u_apcie_icc_cmd_send k sc major minor data len rbuf rlen = Inr sc'"
      "unat len \<le> length data"
    using frame(2) [OF that] checksum_unat by metis
  show ?thesis
    using checksum_unat [of p] checksum_append [of p q] checksum_mset [of p q] pad [of p n]
      frame frame_pad frame_sum
    by (simp add: Let_def)
qed

theorem checksum_is_byte_sum_witness:
  "mset [1, 2 :: u8] = mset [2, 1]
   \<and> checksum [1, 2] = checksum [2, 1]
   \<and> checksum ([1, 2] @ replicate 3 0) = checksum [1, 2]
   \<and> (\<exists>sc'. u_apcie_icc_cmd_send example_consts idle_dev 5 0 [3] 1 (Some 0) 8 = Inr sc'
          \<and> unat (1 :: u16) \<le> length [3 :: u8]
          \<and> hdr_checksum (request sc')
             = checksum (hdr_bytes ((request sc')\<lparr>hdr_checksum := 0\<rparr>) @ [3] @ replicate 19 0))"
proof -
  have h1: "unat (1 :: u16) \<le> ICC_MAX_PAYLOAD example_consts"
    by (simp add: example_consts_def)
  have h2: "req_empty idle_dev = 1" and h3: "req_full idle_dev = 0"
    by (simp_all add: idle_dev_def)
  obtain sc' where s: "u_apcie_icc_cmd_send example_consts idle_dev 5 0 [3] 1 (Some 0) 8 = Inr sc'"
    using send_ok [OF h1 h2 h3] by blast
  have m: "mset [1, 2 :: u8] = mset [2, 1]" by simp
  have pd: "ICC_MIN_PAYLOAD example_consts - unat (1 :: u16) = 19"
    by (simp add: example_consts_def)
  have l: "unat (1 :: u16) \<le> length [3 :: u8]" by simp
  note T = checksum_is_byte_sum
      [of "[1, 2]" "[2, 1]" 3 example_consts idle_dev 5 0 "[3]" 1 "Some 0" 8 sc']
  from T m have c2: "checksum [1, 2 :: u8] = checksum [2, 1]" by blast
  from T have c3: "checksum ([1, 2 :: u8] @ replicate 3 0) = checksum [1, 2]" by blast
  from T s l have "hdr_checksum (request sc')
      = checksum (hdr_bytes ((request sc')\<lparr>hdr_checksum := 0\<rparr>) @ take (unat (1 :: u16)) [3]
                    @ replicate (ICC_MIN_PAYLOAD example_consts - unat (1 :: u16)) 0)"
    unfolding Let_def by blast
  then have c4: "hdr_checksum (request sc')
      = checksum (hdr_bytes ((request sc')\<lparr>hdr_checksum := 0\<rparr>) @ [3] @ replicate 19 0)"
    using pd by simp
  from m c2 c3 s l c4 show ?thesis by blast
qed

text \<open>
  C4. A request of at most the maximum payload, sent on an idle slot and answered by a
  well-formed reply to it (reply flag and magic, the request's major and minor, the
  request's cookie, a correct checksum), returns the reply's length field minus the header
  size, and the first \<open>min rlen (length payload)\<close> bytes of the caller's buffer are
  the first bytes of the payload, the rest of the buffer being as before.
\<close>

theorem send_request_reply_roundtrip:
  assumes "unat len \<le> ICC_MAX_PAYLOAD k"
    and "req_empty sc = 1" and "req_full sc = 0"
    and "reply_frame_ok k h payload"
    and "frame_checksum_ok h payload"
    and "hdr_cookie h = hdr_cookie (request sc) + 1"
    and "hdr_major h = major" and "hdr_minor h = (minor OR ICC_REPLY k)"
    and "arrivals env = [hdr_bytes h @ payload]"
  shows "let (ret, sc') = u_apcie_icc_cmd k env sc major minor data len (Some a) rlen intr;
             n = min (unat rlen) (length payload)
         in ret = int (unat (hdr_length h)) - int ICC_HDR_SIZE
            \<and> ret = int (length payload)
            \<and> take n (heap sc' a) = take n payload
            \<and> drop n (heap sc' a) = drop n (heap sc a)"
proof -
  let ?r = "u_apcie_icc_cmd k env sc major minor data len (Some a) rlen intr"
  let ?n = "min (unat rlen) (length payload)"
  have 1: "fst ?r = int (length payload)"
    using roundtrip(1) [where rbuf = "Some a" and major = major and minor = minor and data = data
          and rlen = rlen and intr = intr, OF assms(1-4) assms(6) _ assms(9)]
      assms(5,7,8) by simp
  have 2: "heap (snd ?r) a = take ?n payload @ drop ?n (heap sc a)"
    using roundtrip(2) [where rbuf = "Some a" and major = major and minor = minor and data = data
          and rlen = rlen and intr = intr, OF assms(1-4) assms(6) _ assms(9)]
    by (simp add: store_buf_def)
  have L: "unat (hdr_length h) = ICC_HDR_SIZE + length payload"
    using assms(4) by (simp add: reply_frame_ok_def)
  show ?thesis
    using 1 2 L by (simp add: case_prod_beta Let_def)
qed

theorem send_request_reply_roundtrip_witness:
  "unat (1 :: u16) \<le> ICC_MAX_PAYLOAD example_consts
   \<and> req_empty idle_dev = 1 \<and> req_full idle_dev = 0
   \<and> reply_frame_ok example_consts example_reply_hdr example_payload
   \<and> frame_checksum_ok example_reply_hdr example_payload
   \<and> hdr_cookie example_reply_hdr = hdr_cookie (request idle_dev) + 1
   \<and> arrivals answering_env = [hdr_bytes example_reply_hdr @ example_payload]
   \<and> fst (u_apcie_icc_cmd example_consts answering_env idle_dev 5 0 [3] 1 (Some 0) 1 False) = 2
   \<and> take 1 (heap (snd (u_apcie_icc_cmd example_consts answering_env idle_dev 5 0 [3] 1
                           (Some 0) 1 False)) 0) = [7]"
proof -
  have h1: "unat (1 :: u16) \<le> ICC_MAX_PAYLOAD example_consts"
    by (simp add: example_consts_def)
  have h2: "req_empty idle_dev = 1" and h3: "req_full idle_dev = 0"
    by (simp_all add: idle_dev_def)
  have h6: "hdr_cookie example_reply_hdr = hdr_cookie (request idle_dev) + 1"
    by (simp add: example_reply_hdr_def idle_dev_def zero_hdr_def)
  have h7: "hdr_major example_reply_hdr = 5"
    and h8: "hdr_minor example_reply_hdr = (0 OR ICC_REPLY example_consts)"
    by (simp_all add: example_reply_hdr_def example_consts_def)
  have h9: "arrivals answering_env = [hdr_bytes example_reply_hdr @ example_payload]"
    by (simp add: answering_env_def)
  show ?thesis
    using send_request_reply_roundtrip
      [where a = 0 and data = "[3]" and rlen = 1 and intr = False,
       OF h1 h2 h3 example_frame_ok example_frame_checksum h6 h7 h8 h9]
      h1 h2 h3 example_frame_ok example_frame_checksum h6 h9
    by (simp add: case_prod_beta Let_def example_payload_def)
qed

text \<open>
  C5. On a received reply the call does not succeed unless the frame's checksum field is
  the checksum of the whole frame, the header with that field zeroed and all of the
  payload, also the part beyond the caller's capacity; on a mismatch it returns
  \<^verbatim>\<open>-EIO\<close> after logging the checksum mismatch.
\<close>

theorem reply_checksum_verified:
  assumes "unat len \<le> ICC_MAX_PAYLOAD k"
    and "req_empty sc = 1" and "req_full sc = 0"
    and "reply_frame_ok k h payload"
    and "hdr_cookie h = hdr_cookie (request sc) + 1"
    and "rbuf = None \<longrightarrow> rlen = 0"
    and "arrivals env = [hdr_bytes h @ payload]"
  shows "let (ret, sc') = u_apcie_icc_cmd k env sc major minor data len rbuf rlen intr in
           (0 \<le> ret \<longrightarrow> frame_checksum_ok h payload)
           \<and> (\<not> frame_checksum_ok h payload \<longrightarrow>
                 ret = - EIO \<and> last (trace sc') = Log ''icc: checksum mismatch'')"
proof -
  let ?r = "u_apcie_icc_cmd k env sc major minor data len rbuf rlen intr"
  note rt = roundtrip [where major = major and minor = minor and data = data and intr = intr,
      OF assms]
  have 1: "0 \<le> fst ?r \<longrightarrow> frame_checksum_ok h payload"
    using rt(1) by (simp add: EIO_def split: if_splits)
  have 2: "fst ?r = - EIO \<and> last (trace (snd ?r)) = Log ''icc: checksum mismatch''"
    if "\<not> frame_checksum_ok h payload"
    using rt(1) rt(5) [OF that] that by simp
  show ?thesis using 1 2 by (simp add: case_prod_beta)
qed

theorem reply_checksum_verified_witness:
  "unat (1 :: u16) \<le> ICC_MAX_PAYLOAD example_consts
   \<and> req_empty idle_dev = 1 \<and> req_full idle_dev = 0
   \<and> reply_frame_ok example_consts (example_reply_hdr\<lparr>hdr_checksum := 0xA5\<rparr>) example_payload
   \<and> hdr_cookie (example_reply_hdr\<lparr>hdr_checksum := 0xA5\<rparr>) = hdr_cookie (request idle_dev) + 1
   \<and> \<not> frame_checksum_ok (example_reply_hdr\<lparr>hdr_checksum := 0xA5\<rparr>) example_payload
   \<and> fst (u_apcie_icc_cmd example_consts
             (answering_env\<lparr>arrivals :=
                [hdr_bytes (example_reply_hdr\<lparr>hdr_checksum := 0xA5\<rparr>) @ example_payload]\<rparr>)
             idle_dev 5 0 [3] 1 (Some 0) 1 False) = - EIO"
proof -
  let ?h = "example_reply_hdr\<lparr>hdr_checksum := 0xA5\<rparr>"
  let ?env = "answering_env\<lparr>arrivals := [hdr_bytes ?h @ example_payload]\<rparr>"
  have h1: "unat (1 :: u16) \<le> ICC_MAX_PAYLOAD example_consts"
    by (simp add: example_consts_def)
  have h2: "req_empty idle_dev = 1" and h3: "req_full idle_dev = 0"
    by (simp_all add: idle_dev_def)
  have h4: "reply_frame_ok example_consts ?h example_payload"
    using example_frame_ok by (simp add: reply_frame_ok_def)
  have h5: "hdr_cookie ?h = hdr_cookie (request idle_dev) + 1"
    by (simp add: example_reply_hdr_def idle_dev_def zero_hdr_def)
  have h6: "Some (0::nat) = None \<longrightarrow> (1 :: u16) = 0" by simp
  have h7: "arrivals ?env = [hdr_bytes ?h @ example_payload]" by simp
  have bad: "\<not> frame_checksum_ok ?h example_payload"
    by (simp add: frame_checksum_ok_def example_reply_hdr_def example_payload_def hdr_bytes_def
        checksum_def lo8_def hi8_def)
  show ?thesis
    using reply_checksum_verified
      [where major = 5 and minor = 0 and data = "[3]" and intr = False,
       OF h1 h2 h3 h4 h5 h6 h7]
      h1 h2 h3 h4 h5 bad
    by (simp add: case_prod_beta)
qed

text \<open>
  C6, as stated, has a following request proceed normally after a timeout. The timeout
  path leaves the request slot as the send marked it: when the co-processor has not
  taken the first request out of the slot, the next call finds the slot busy and
  returns \<^verbatim>\<open>-EIO\<close>, although a valid reply to it is on its way.
\<close>

theorem timeout_then_busy_without_drain:
  "fst (u_apcie_icc_cmd example_consts dead_env idle_dev 5 0 [3] 1 (Some 0) 8 False)
     = - ETIMEDOUT
   \<and> fst (u_apcie_icc_cmd example_consts
            (silent_env\<lparr>arrivals := [hdr_bytes second_reply_hdr @ example_payload]\<rparr>)
            (snd (u_apcie_icc_cmd example_consts dead_env idle_dev 5 0 [3] 1 (Some 0) 8 False))
            5 0 [4] 1 (Some 0) 8 False) = - EIO"
proof -
  have h1: "unat (1 :: u16) \<le> ICC_MAX_PAYLOAD example_consts"
    by (simp add: example_consts_def)
  have h2: "req_empty idle_dev = 1" and h3: "req_full idle_dev = 0"
    by (simp_all add: idle_dev_def)
  obtain sc1 where s: "u_apcie_icc_cmd_send example_consts idle_dev 5 0 [3] 1 (Some 0) 8 = Inr sc1"
    and p: "reply_pending sc1"
    using send_ok [OF h1 h2 h3] by blast
  have nd: "\<not> remote_drains dead_env" by (simp add: dead_env_def)
  have w: "wait_event example_consts dead_env False sc1 = (0, sc1)"
    using p by (simp add: wait_event_def dead_env_def Let_def)
  have t: "fst (u_apcie_icc_cmd example_consts dead_env idle_dev 5 0 [3] 1 (Some 0) 8 False)
             = - ETIMEDOUT"
    using p by (simp add: u_apcie_icc_cmd_def s w finish_failed)
  show ?thesis
    using t send_busy [OF h1, where sc = "snd (u_apcie_icc_cmd example_consts dead_env idle_dev 5 0 [3] 1 (Some 0) 8 False)"]
      undrained_after_timeout(1) [OF s nd, of False]
    by simp
qed

text \<open>
  C6, amended. When the wait ends with the reply still pending (no validated reply came),
  the call clears the pending flag and the saved buffer pointer and returns
  \<^verbatim>\<open>-EINTR\<close> if the interruptible wait was cut by a signal, \<^verbatim>\<open>-ETIMEDOUT\<close>
  otherwise; the request slot is left as it is. A following request proceeds normally
  once the co-processor has drained the request slot: answered by a valid reply it returns
  that reply's payload length. While the slot is not drained, a following request of
  admissible length returns \<^verbatim>\<open>-EIO\<close>.
\<close>

theorem timeout_or_interrupt_clears_pending:
  assumes send: "u_apcie_icc_cmd_send k sc major minor data len rbuf rlen = Inr sc1"
    and noreply: "reply_pending (snd (wait_event k env intr sc1))"
  shows "let (ret, sc3) = u_apcie_icc_cmd k env sc major minor data len rbuf rlen intr in
           ret = (if intr \<and> signalled env then - EINTR else - ETIMEDOUT)
           \<and> \<not> reply_pending sc3 \<and> reply_buffer sc3 = None
           \<and> (remote_drains env \<and> unat len2 \<le> ICC_MAX_PAYLOAD k
                \<and> reply_frame_ok k h payload \<and> frame_checksum_ok h payload
                \<and> hdr_cookie h = hdr_cookie (request sc3) + 1
                \<and> hdr_major h = major2 \<and> hdr_minor h = (minor2 OR ICC_REPLY k)
                \<and> arrivals env2 = [hdr_bytes h @ payload]
               \<longrightarrow> fst (u_apcie_icc_cmd k env2 sc3 major2 minor2 data2 len2 (Some a) rlen2 intr2)
                     = int (length payload))
           \<and> (\<not> remote_drains env \<and> unat len2 \<le> ICC_MAX_PAYLOAD k
               \<longrightarrow> fst (u_apcie_icc_cmd k env2 sc3 major2 minor2 data2 len2 rbuf2 rlen2 intr2)
                     = - EIO)"
proof -
  obtain ret sc2 where w: "wait_event k env intr sc1 = (ret, sc2)" by fastforce
  have pend: "reply_pending sc2" using noreply w by simp
  have ret: "ret = (if intr \<and> signalled env then - ERESTARTSYS else 0)"
    using wait_event_ret [of k env intr sc1] pend w by simp
  define r where "r = u_apcie_icc_cmd_finish k sc2 major minor rbuf ret"
  have r: "u_apcie_icc_cmd k env sc major minor data len rbuf rlen intr = r"
    by (simp add: u_apcie_icc_cmd_def send w r_def)
  have 1: "fst r = (if intr \<and> signalled env then - EINTR else - ETIMEDOUT)"
    unfolding r_def using pend ret by (simp add: finish_failed ERESTARTSYS_def)
  have 2: "\<not> reply_pending (snd r)" "reply_buffer (snd r) = None"
    unfolding r_def by (simp_all add: finish_fields)
  have 3: "fst (u_apcie_icc_cmd k env2 (snd r) major2 minor2 data2 len2 (Some a) rlen2 intr2)
             = int (length payload)"
    if "remote_drains env" "unat len2 \<le> ICC_MAX_PAYLOAD k"
      "reply_frame_ok k h payload" "frame_checksum_ok h payload"
      "hdr_cookie h = hdr_cookie (request (snd r)) + 1"
      "hdr_major h = major2" "hdr_minor h = (minor2 OR ICC_REPLY k)"
      "arrivals env2 = [hdr_bytes h @ payload]"
  proof -
    have idle: "req_empty (snd r) = 1" "req_full (snd r) = 0"
      using wait_event_drained [OF that(1), of k intr sc1] w
      by (simp_all add: r_def finish_req_flags)
    show ?thesis
      using roundtrip(1) [where rbuf = "Some a" and major = major2 and minor = minor2 and data = data2
            and rlen = rlen2 and intr = intr2, OF that(2) idle that(3) that(5) _ that(8)]
        that(4,6,7)
      by simp
  qed
  have 4: "fst (u_apcie_icc_cmd k env2 (snd r) major2 minor2 data2 len2 rbuf2 rlen2 intr2)
             = - EIO"
    if "\<not> remote_drains env" "unat len2 \<le> ICC_MAX_PAYLOAD k"
    using send_busy [OF that(2), of "snd r"]
      undrained_after_timeout(1) [OF send that(1), of intr]
    by (simp add: r)
  show ?thesis
    unfolding r Let_def case_prod_beta using 1 2 3 4 by blast
qed

theorem timeout_or_interrupt_witness:
  "(\<exists>sc1. u_apcie_icc_cmd_send example_consts idle_dev 5 0 [3] 1 (Some 0) 8 = Inr sc1
           \<and> reply_pending (snd (wait_event example_consts silent_env False sc1))
           \<and> reply_pending (snd (wait_event example_consts dead_env False sc1)))
   \<and> fst (u_apcie_icc_cmd example_consts silent_env idle_dev 5 0 [3] 1 (Some 0) 8 False)
       = - ETIMEDOUT
   \<and> \<not> reply_pending
         (snd (u_apcie_icc_cmd example_consts silent_env idle_dev 5 0 [3] 1 (Some 0) 8 False))
   \<and> reply_buffer
         (snd (u_apcie_icc_cmd example_consts silent_env idle_dev 5 0 [3] 1 (Some 0) 8 False))
       = None
   \<and> remote_drains silent_env
   \<and> reply_frame_ok example_consts second_reply_hdr example_payload
   \<and> frame_checksum_ok second_reply_hdr example_payload
   \<and> hdr_cookie second_reply_hdr
       = hdr_cookie (request (snd (u_apcie_icc_cmd example_consts silent_env idle_dev 5 0 [3] 1
                                     (Some 0) 8 False))) + 1
   \<and> fst (u_apcie_icc_cmd example_consts
             (silent_env\<lparr>arrivals := [hdr_bytes second_reply_hdr @ example_payload]\<rparr>)
             (snd (u_apcie_icc_cmd example_consts silent_env idle_dev 5 0 [3] 1 (Some 0) 8 False))
             5 0 [4] 1 (Some 0) 8 False) = 2
   \<and> \<not> remote_drains dead_env
   \<and> fst (u_apcie_icc_cmd example_consts
             (silent_env\<lparr>arrivals := [hdr_bytes second_reply_hdr @ example_payload]\<rparr>)
             (snd (u_apcie_icc_cmd example_consts dead_env idle_dev 5 0 [3] 1 (Some 0) 8 False))
             5 0 [4] 1 (Some 0) 8 False) = - EIO"
proof -
  let ?sc3 = "snd (u_apcie_icc_cmd example_consts silent_env idle_dev 5 0 [3] 1 (Some 0) 8 False)"
  let ?sc3' = "snd (u_apcie_icc_cmd example_consts dead_env idle_dev 5 0 [3] 1 (Some 0) 8 False)"
  let ?env2 = "silent_env\<lparr>arrivals := [hdr_bytes second_reply_hdr @ example_payload]\<rparr>"
  have h1: "unat (1 :: u16) \<le> ICC_MAX_PAYLOAD example_consts"
    by (simp add: example_consts_def)
  have h2: "req_empty idle_dev = 1" and h3: "req_full idle_dev = 0"
    by (simp_all add: idle_dev_def)
  obtain sc1 where s: "u_apcie_icc_cmd_send example_consts idle_dev 5 0 [3] 1 (Some 0) 8 = Inr sc1"
    and p: "reply_pending sc1"
    and c1: "hdr_cookie (request sc1) = hdr_cookie (request idle_dev) + 1"
    using send_ok [OF h1 h2 h3] by blast
  have w: "reply_pending (snd (wait_event example_consts silent_env False sc1))"
    using p by (simp add: wait_event_def silent_env_def Let_def)
  have w': "reply_pending (snd (wait_event example_consts dead_env False sc1))"
    using p by (simp add: wait_event_def dead_env_def Let_def)
  have d: "remote_drains silent_env" by (simp add: silent_env_def)
  have nd: "\<not> remote_drains dead_env" by (simp add: dead_env_def)
  have ok: "reply_frame_ok example_consts second_reply_hdr example_payload"
    using example_frame_ok by (simp add: reply_frame_ok_def second_reply_hdr_def)
  have ck: "frame_checksum_ok second_reply_hdr example_payload"
    by (simp add: frame_checksum_ok_def second_reply_hdr_def example_reply_hdr_def
          example_payload_def hdr_bytes_def checksum_def lo8_def hi8_def)
  have "request ?sc3 = request sc1"
    by (simp add: u_apcie_icc_cmd_def s wait_event_def silent_env_def Let_def
          u_apcie_icc_cmd_finish_def emit_def)
  then have ck2: "hdr_cookie second_reply_hdr = hdr_cookie (request ?sc3) + 1"
    using c1
    by (simp add: second_reply_hdr_def example_reply_hdr_def idle_dev_def zero_hdr_def)
  have mj: "hdr_major second_reply_hdr = 5"
    and mn: "hdr_minor second_reply_hdr = (0 OR ICC_REPLY example_consts)"
    by (simp_all add: second_reply_hdr_def example_reply_hdr_def example_consts_def)
  have a2: "arrivals ?env2 = [hdr_bytes second_reply_hdr @ example_payload]" by simp
  note T = timeout_or_interrupt_clears_pending
      [OF s w, where ?len2.0 = 1 and h = second_reply_hdr and payload = example_payload
         and ?major2.0 = 5 and ?minor2.0 = 0 and ?env2.0 = ?env2 and ?data2.0 = "[4]"
         and a = 0 and ?rlen2.0 = 8 and ?intr2.0 = False]
  note T' = timeout_or_interrupt_clears_pending
      [OF s w', where ?len2.0 = 1 and ?major2.0 = 5 and ?minor2.0 = 0 and ?env2.0 = ?env2
         and ?data2.0 = "[4]" and ?rbuf2.0 = "Some 0" and ?rlen2.0 = 8 and ?intr2.0 = False]
  from T have t1: "fst (u_apcie_icc_cmd example_consts silent_env idle_dev 5 0 [3] 1 (Some 0) 8 False)
       = - ETIMEDOUT"
    and t2: "\<not> reply_pending ?sc3" and t3: "reply_buffer ?sc3 = None"
    by (simp_all add: case_prod_beta silent_env_def)
  from T d h1 ok ck ck2 mj mn a2
  have t4: "fst (u_apcie_icc_cmd example_consts ?env2 ?sc3 5 0 [4] 1 (Some 0) 8 False)
              = int (length example_payload)"
    unfolding Let_def case_prod_beta by blast
  have t5: "int (length example_payload) = 2" by (simp add: example_payload_def)
  from T' nd h1
  have t6: "fst (u_apcie_icc_cmd example_consts ?env2 ?sc3' 5 0 [4] 1 (Some 0) 8 False) = - EIO"
    unfolding Let_def case_prod_beta by blast
  from s w w' t1 t2 t3 d ok ck ck2 t4 t5 nd t6 show ?thesis by simp
qed

text \<open>
  C7, as stated, holds of every sequence of emitter calls. The length and the count of a
  group are single bytes: 63 register writes in a row make one group of 256 bytes, and
  the length written back into its header is 0.
\<close>

theorem cq_batch_long_run_length_wraps:
  "runs (replicate 63 (WriteReg 0 0)) = [replicate 63 (WriteReg 0 0)]
   \<and> q_p (cq_close (cq_batch empty_queue 4 (replicate 63 (WriteReg 0 0)))) = 256
   \<and> cmdbuf (cq_close (cq_batch empty_queue 4 (replicate 63 (WriteReg 0 0)))) 1 = 0"
proof -
  let ?ops = "replicate 63 (WriteReg 0 0)"
  let ?q = "cq_close (cq_batch empty_queue 4 ?ops)"
  have r: "runs ?ops = [?ops]" by (rule runs_replicate) simp
  have gsz: "group_size ?ops = 256"
    using operands_replicate_writereg [of 63 0 0] by (simp add: group_size_def)
  have e: "encode_batch ?ops = encode_group ?ops" by (simp add: encode_batch_def r)
  have p: "q_p ?q = 256" by (simp add: cq_batch_encoded(2) e gsz)
  have "cmdbuf ?q 1 = buf_prefix ?q ! 1" by (rule cmdbuf_buf_prefix) (simp add: p)
  also have "\<dots> = encode_group ?ops ! 1" by (simp add: cq_batch_encoded(1) e)
  also have "\<dots> = of_nat (group_size ?ops)" by (simp add: encode_group_def)
  also have "\<dots> = 0" by (simp add: gsz)
  finally show ?thesis using r p by simp
qed

text \<open>
  C7, amended. For every sequence of emitter calls whose encoding fits the command buffer
  and in which no group is longer than 255 bytes, the buffer after the closing back-patch
  is the concatenation of one group per maximal run of operations with the same (major,
  minor): a header with the group's byte length and the number of operations in the run,
  then their operand bytes; the queue's group count is the number of runs. Three register
  writes give one group with count 3; a write, a read and a write give three groups.
\<close>

theorem cq_batch_coalesces:
  assumes fits: "length (encode_batch ops) \<le> CMDBUF_SIZE"
    and small: "\<forall>g \<in> set (runs ops). group_size g < 256"
  shows "buf_prefix (cq_close (cq_batch q code ops)) = encode_batch ops
     \<and> unat (req_count (cq_close (cq_batch q code ops))) = length (runs ops)
     \<and> (\<forall>g \<in> set (runs ops).
           unat (encode_group g ! 1) = group_size g \<and> unat (encode_group g ! 3) = length g
           \<and> drop 4 (encode_group g) = concat (map operands g))
     \<and> req_count (cq_close (cq_batch q code [WriteReg a 1, WriteReg b 2, WriteReg c 3])) = 1
     \<and> buf_prefix (cq_close (cq_batch q code [WriteReg a 1, WriteReg b 2, WriteReg c 3])) ! 3 = 3
     \<and> req_count (cq_close (cq_batch q code [WriteReg a 1, Read b 1, WriteReg c 3])) = 3"
proof -
  have "8 * length (runs ops) \<le> CMDBUF_SIZE"
    using runs_count_bound [of ops] fits by simp
  then have n: "length (runs ops) < 256" by (simp add: CMDBUF_SIZE_def)
  have cnt: "unat (req_count (cq_close (cq_batch q code ops))) = length (runs ops)"
    using n by (simp add: cq_batch_encoded(3) unat_of_nat)
  have grp: "unat (encode_group g ! 1) = group_size g \<and> unat (encode_group g ! 3) = length g
       \<and> drop 4 (encode_group g) = concat (map operands g)"
    if "g \<in> set (runs ops)" for g
  proof -
    have s: "group_size g < 256" using small that by blast
    then have l: "length g < 256" using group_size_gt_length [of g] by simp
    show ?thesis using s l by (simp add: encode_group_def unat_of_nat)
  qed
  have w3: "runs [WriteReg a 1, WriteReg b 2, WriteReg c 3]
              = [[WriteReg a 1, WriteReg b 2, WriteReg c 3]]" by simp
  have wrw: "length (runs [WriteReg a 1, Read b 1, WriteReg c 3]) = 3" by simp
  have i1: "req_count (cq_close (cq_batch q code [WriteReg a 1, WriteReg b 2, WriteReg c 3])) = 1"
    unfolding cq_batch_encoded(3) w3 by simp
  have i2: "buf_prefix (cq_close (cq_batch q code [WriteReg a 1, WriteReg b 2, WriteReg c 3])) ! 3 = 3"
    unfolding cq_batch_encoded(1) encode_batch_def w3 by (simp add: encode_group_def)
  have i3: "req_count (cq_close (cq_batch q code [WriteReg a 1, Read b 1, WriteReg c 3])) = 3"
    unfolding cq_batch_encoded(3) wrw by simp
  show ?thesis using cq_batch_encoded(1) [of q code ops] cnt grp i1 i2 i3 by blast
qed


theorem cq_batch_coalesces_witness:
  "length (encode_batch [WriteReg 0x7005 1, WriteReg 0x7006 2, WriteReg 0x7007 3]) \<le> CMDBUF_SIZE
   \<and> runs [WriteReg 0x7005 1, WriteReg 0x7006 2, WriteReg 0x7007 3]
       = [[WriteReg 0x7005 1, WriteReg 0x7006 2, WriteReg 0x7007 3]]
   \<and> group_size [WriteReg 0x7005 1, WriteReg 0x7006 2, WriteReg 0x7007 3] < 256
   \<and> buf_prefix (cq_close (cq_batch empty_queue 4
                    [WriteReg 0x7005 1, WriteReg 0x7006 2, WriteReg 0x7007 3]))
       = [2, 16, 2, 3, 1, 0x70, 0x05, 1, 1, 0x70, 0x06, 2, 1, 0x70, 0x07, 3]
   \<and> unat (req_count (cq_close (cq_batch empty_queue 4
                    [WriteReg 0x7005 1, WriteReg 0x7006 2, WriteReg 0x7007 3]))) = 1"
proof -
  let ?ops = "[WriteReg 0x7005 1, WriteReg 0x7006 2, WriteReg 0x7007 3]"
  have r: "runs ?ops = [?ops]" by simp
  have g: "group_size ?ops = 16" by (simp add: group_size_def)
  have e: "encode_batch ?ops = [2, 16, 2, 3, 1, 0x70, 0x05, 1, 1, 0x70, 0x06, 2, 1, 0x70, 0x07, 3]"
    by (simp add: encode_batch_def encode_group_def group_size_def hi8_def lo8_def)
  have h1: "length (encode_batch ?ops) \<le> CMDBUF_SIZE" by (simp add: e CMDBUF_SIZE_def)
  have h2: "\<forall>g \<in> set (runs ?ops). group_size g < 256" by (simp add: g)
  from cq_batch_coalesces [OF h1 h2, of empty_queue 4]
  have "buf_prefix (cq_close (cq_batch empty_queue 4 ?ops)) = encode_batch ?ops"
    and "unat (req_count (cq_close (cq_batch empty_queue 4 ?ops))) = length (runs ?ops)"
    by blast+
  then show ?thesis using h1 r g e by simp
qed

text \<open>
  C8, as stated, asks for two distinct errors. A transport failure and a reply with a
  nonzero status byte give the same return value.
\<close>

theorem cq_exec_same_errno:
  "\<not> (fst (cq_exec failing_transport (cq_writereg (cq_init empty_queue 4) 0x7005 0x80) ())
        \<noteq> fst (cq_exec rejecting_transport (cq_writereg (cq_init empty_queue 4) 0x7005 0x80) ()))"
  by (simp add: cq_exec_def cq_close_def cq_writereg_def cq_cmd_def cq_new_cmd_def cq_init_def
        empty_queue_def failing_transport_def rejecting_transport_def Let_def)

text \<open>
  C8, amended. With a group open, \<^verbatim>\<open>cq_exec\<close> returns \<^verbatim>\<open>-EIO\<close> when the transport
  result is below 5 (a failure or a short reply) and also when the two status bytes of the
  reply are not both zero; the two cases differ in the line logged, not in the value
  returned. Otherwise it returns the transport's result.
\<close>

theorem cq_exec_result:
  assumes "q_cmd q \<noteq> None"
    and "icc w 0x10 0 (req_bytes (cq_close q)) (req_length (cq_close q)) (q_reply q) REPLY_SIZE
           = (res, rep, w')"
  shows "cq_exec icc q w =
           (if res < 5 then (- EIO, [Log ''icc i2c commandqueue failed: %d''],
                             (cq_close q)\<lparr>q_reply := rep\<rparr>, w')
            else if rep 0 \<noteq> 0 \<or> rep 1 \<noteq> 0 then
              (- EIO, [Log ''icc i2c commandqueue failed: %d, %d''],
               (cq_close q)\<lparr>q_reply := rep\<rparr>, w')
            else (res, [], (cq_close q)\<lparr>q_reply := rep\<rparr>, w'))"
proof -
  obtain c where c: "q_cmd q = Some c" using assms(1) by blast
  have "q_reply (cq_close q) = q_reply q" by (simp add: cq_close_def c Let_def)
  with assms(2) show ?thesis by (simp add: cq_exec_def c Let_def)
qed

theorem cq_exec_result_witness:
  "q_cmd (cq_writereg (cq_init empty_queue 4) 0x7005 0x80) \<noteq> None
   \<and> fst (cq_exec counting_transport (cq_writereg (cq_init empty_queue 4) 0x7005 0x80) 0) = 6
   \<and> snd (snd (snd (cq_exec counting_transport (cq_writereg (cq_init empty_queue 4) 0x7005 0x80) 0))) = 1"
proof -
  let ?q = "cq_writereg (cq_init empty_queue 4) 0x7005 0x80"
  have h: "q_cmd ?q \<noteq> None"
    by (simp add: cq_writereg_def cq_cmd_def cq_new_cmd_def cq_init_def empty_queue_def Let_def)
  have t: "counting_transport 0 0x10 0 (req_bytes (cq_close ?q)) (req_length (cq_close ?q))
             (q_reply ?q) REPLY_SIZE = (6, (\<lambda>i. 0), 1)"
    by (simp add: counting_transport_def)
  show ?thesis
    using h cq_exec_result [where icc = counting_transport and w = "0::nat", OF h t] by simp
qed



text \<open>
  C10. Executing a queue in which no emitter ran since \<^verbatim>\<open>cq_init\<close> returns 0 at
  once: the queue and the transport's world are unchanged, whatever the transport is.
\<close>

theorem cq_exec_nothing_queued:
  "cq_exec icc (cq_init q code) w = (0, [], cq_init q code, w)"
  by (simp add: cq_exec_def cq_init_def)

theorem cq_exec_nothing_queued_witness:
  "cq_exec counting_transport (cq_init empty_queue 4) 0 = (0, [], cq_init empty_queue 4, 0)"
  using cq_exec_nothing_queued [of counting_transport empty_queue 4 0] by simp

end
